theory Spec2Isabelle
  imports Main "HOL-Library.Sublist"
begin

section \<open>Python strings\<close>

text \<open>
  A Python \<^verbatim>\<open>str\<close> is a sequence of Unicode code points and \<^verbatim>\<open>len\<close> counts code
  points, so a string is a list of code points. Literals of the source are written
  with \<open>lit\<close>; the three emoji of the source are given by their code points.
\<close>

type_synonym pychar = nat
type_synonym pystr = "pychar list"

definition lit :: "string \<Rightarrow> pystr" where
  "lit s = map of_char s"

definition memo_emoji :: pychar where
  "memo_emoji = 128221"

definition chart_emoji :: pychar where
  "chart_emoji = 128202"

definition cross_emoji :: pychar where
  "cross_emoji = 10060"

text \<open>
  The characters \<^verbatim>\<open>str.strip()\<close> removes: those for which \<^verbatim>\<open>str.isspace\<close> holds
  (tab to carriage return, the separators 28 to 31, space, and the Unicode spaces).
\<close>

definition isspace :: "pychar \<Rightarrow> bool" where
  "isspace c \<longleftrightarrow>
     (9 \<le> c \<and> c \<le> 13) \<or> (28 \<le> c \<and> c \<le> 31) \<or> c = 32 \<or> c = 133 \<or> c = 160 \<or>
     c = 5760 \<or> (8192 \<le> c \<and> c \<le> 8202) \<or> c = 8232 \<or> c = 8233 \<or> c = 8239 \<or>
     c = 8287 \<or> c = 12288"

definition lstrip :: "pystr \<Rightarrow> pystr" where
  "lstrip s = dropWhile isspace s"

definition rstrip :: "pystr \<Rightarrow> pystr" where
  "rstrip s = rev (dropWhile isspace (rev s))"

definition strip :: "pystr \<Rightarrow> pystr" where
  "strip s = rstrip (lstrip s)"

text \<open>
  \<^verbatim>\<open>s.replace(old, new)\<close>: the occurrences of \<open>old\<close> are found from the left and do not
  overlap; the text after a replaced occurrence is scanned on, the replacement itself
  is not scanned again. An empty \<open>old\<close> matches before every character and at the end.
\<close>

function replace :: "pystr \<Rightarrow> pystr \<Rightarrow> pystr \<Rightarrow> pystr" where
  "replace old new [] = (if old = [] then new else [])"
| "replace old new (c # cs) =
     (if old = [] then new @ concat (map (\<lambda>x. x # new) (c # cs))
      else if prefix old (c # cs) then new @ replace old new (drop (length old) (c # cs))
      else c # replace old new cs)"
  by pat_completeness auto
termination
  by (relation "measure (\<lambda>(old, new, s). length s)") auto

text \<open>
  \<^verbatim>\<open>s.capitalize()\<close> replaces the first character by its title-case mapping and every
  other character by its lower-case mapping. Both are the full mappings of the Unicode
  character database of the Python runtime: the mapping of one character can be
  several characters (the sharp s has the title case "Ss"), and the lower case of the
  capital sigma depends on its neighbours in the string. These tables are no part of
  the repository, so they are a parameter of the model: \<open>title_of\<close> gives the title
  case of a character, \<open>lower_at\<close> the lower case of the character at a position of
  a string. For the ASCII characters the mappings are fixed by the two functions
  below, and the tables are asked for the other characters only.
\<close>

record case_tables =
  title_of :: "pychar \<Rightarrow> pystr"
  lower_at :: "pystr \<Rightarrow> nat \<Rightarrow> pystr"

text \<open>The title case and the lower case of an ASCII character.\<close>

definition ascii_upper :: "pychar \<Rightarrow> pychar" where
  "ascii_upper c = (if 97 \<le> c \<and> c \<le> 122 then c - 32 else c)"

definition ascii_lower :: "pychar \<Rightarrow> pychar" where
  "ascii_lower c = (if 65 \<le> c \<and> c \<le> 90 then c + 32 else c)"

definition to_title :: "case_tables \<Rightarrow> pychar \<Rightarrow> pystr" where
  "to_title db c = (if c < 128 then [ascii_upper c] else title_of db c)"

text \<open>The position is one of the string wherever \<open>capitalize\<close> calls this function.\<close>

definition to_lower :: "case_tables \<Rightarrow> pystr \<Rightarrow> nat \<Rightarrow> pystr" where
  "to_lower db s i = (if s ! i < 128 then [ascii_lower (s ! i)] else lower_at db s i)"

definition capitalize :: "case_tables \<Rightarrow> pystr \<Rightarrow> pystr" where
  "capitalize db s =
     (if s = [] then []
      else to_title db (hd s) @ concat (map (to_lower db s) [1..<length s]))"

definition endswith :: "pystr \<Rightarrow> pystr \<Rightarrow> bool" where
  "endswith s suf = suffix suf s"

text \<open>\<^verbatim>\<open>sub in s\<close>: \<open>sub\<close> occurs in \<open>s\<close> as a contiguous piece.\<close>

fun contains :: "pystr \<Rightarrow> pystr \<Rightarrow> bool" where
  "contains sub [] = (sub = [])"
| "contains sub (c # cs) = (prefix sub (c # cs) \<or> contains sub cs)"

text \<open>\<^verbatim>\<open>str(n)\<close> of a length: the decimal digits.\<close>

function str_nat :: "nat \<Rightarrow> pystr" where
  "str_nat n = (if n < 10 then [48 + n] else str_nat (n div 10) @ [48 + n mod 10])"
  by pat_completeness auto
termination
  by (relation "measure id") auto

declare str_nat.simps [simp del]

section \<open>The state of the workflow\<close>

text \<open>
  \<^verbatim>\<open>ContentState\<close> is a \<^verbatim>\<open>TypedDict\<close>: a dictionary with the six keys below, each of
  which may be missing at run time. The nodes return dictionaries of the same type
  that hold only the keys they change, so one record of optional fields stands for
  the state and for the partial update; \<open>None\<close> is a missing key.
\<close>

record ContentState =
  messages :: "pystr list option"
  current_step :: "pystr option"
  content :: "pystr option"
  processed_content :: "pystr option"
  final_result :: "pystr option"
  error :: "pystr option"

text \<open>\<^verbatim>\<open>d.get(key, default)\<close>.\<close>

definition dict_get :: "'a option \<Rightarrow> 'a \<Rightarrow> 'a" where
  "dict_get v d = (case v of None \<Rightarrow> d | Some x \<Rightarrow> x)"

text \<open>The truth value of \<^verbatim>\<open>d.get(key)\<close> for a string field: a missing key gives
  \<^verbatim>\<open>None\<close>, which is false, as the empty string is.\<close>

definition truthy :: "pystr option \<Rightarrow> bool" where
  "truthy v = (case v of None \<Rightarrow> False | Some s \<Rightarrow> s \<noteq> [])"

section \<open>The nodes and the router of ContentProcessor\<close>

text \<open>A node takes the state and returns the dictionary of the keys it changes; the
  router takes the state and returns a label.\<close>

definition validate_input :: "ContentState \<Rightarrow> ContentState" where
  "validate_input state =
     (let c = dict_get (content state) [] in
      if c = [] \<or> length (strip c) = 0 then
        \<lparr>messages = None, current_step = Some (lit ''validate_input''), content = None,
         processed_content = None, final_result = None,
         error = Some (lit ''Input content is empty or invalid'')\<rparr>
      else if length c > 1000 then
        \<lparr>messages = None, current_step = Some (lit ''validate_input''), content = None,
         processed_content = None, final_result = None,
         error = Some (lit ''Input content is too long (max 1000 characters)'')\<rparr>
      else
        \<lparr>messages = Some [lit ''Input validated: '' @ str_nat (length c) @ lit '' characters''],
         current_step = Some (lit ''validate_input''), content = Some (strip c),
         processed_content = None, final_result = None, error = Some []\<rparr>)"

text \<open>The text that \<^verbatim>\<open>process_content\<close> computes from the content: trimmed, double
  spaces replaced, capitalized, with a full stop at the end. The case tables of the
  runtime are the first argument of this node and of all that contains it.\<close>

definition process_text :: "case_tables \<Rightarrow> pystr \<Rightarrow> pystr" where
  "process_text db c =
     (let processed = strip c;
          processed = replace (lit ''  '') (lit '' '') processed;
          processed = capitalize db processed
      in if \<not> endswith processed (lit ''.'') then processed @ lit ''.'' else processed)"

definition process_content :: "case_tables \<Rightarrow> ContentState \<Rightarrow> ContentState" where
  "process_content db state =
     (let processed = process_text db (dict_get (content state) []) in
      \<lparr>messages = Some [lit ''Content processed: '' @ str_nat (length processed) @ lit '' characters''],
       current_step = Some (lit ''process_content''), content = None,
       processed_content = Some processed, final_result = None, error = Some []\<rparr>)"

text \<open>The f-string of \<^verbatim>\<open>format_output\<close> with its four holes, and the \<^verbatim>\<open>strip()\<close>
  applied to it.\<close>

definition summary :: "pystr \<Rightarrow> nat \<Rightarrow> nat \<Rightarrow> nat \<Rightarrow> pystr" where
  "summary processed original_length processed_length steps =
     strip ([10, memo_emoji] @ lit '' Processed Content:'' @ [10] @ processed @ [10, 10, chart_emoji] @
            lit '' Statistics:'' @ [10] @
            lit ''- Original length: '' @ str_nat original_length @ lit '' characters'' @ [10] @
            lit ''- Processed length: '' @ str_nat processed_length @ lit '' characters'' @ [10] @
            lit ''- Processing steps: '' @ str_nat steps @ [10] @ lit ''        '')"

definition format_output :: "ContentState \<Rightarrow> ContentState" where
  "format_output state =
     (let processed = dict_get (processed_content state) [];
          result = summary processed (length (dict_get (content state) [])) (length processed)
                     (length (dict_get (messages state) []))
      in \<lparr>messages = Some [lit ''Output formatted successfully''],
          current_step = Some (lit ''format_output''), content = None,
          processed_content = None, final_result = Some result, error = Some []\<rparr>)"

definition handle_error :: "ContentState \<Rightarrow> ContentState" where
  "handle_error state =
     (let err = dict_get (error state) (lit ''Unknown error occurred'') in
      \<lparr>messages = Some [lit ''Error handled: '' @ err],
       current_step = Some (lit ''handle_error''), content = None,
       processed_content = None,
       final_result = Some ([cross_emoji] @ lit '' Error: '' @ err), error = Some err\<rparr>)"

definition should_process :: "ContentState \<Rightarrow> pystr" where
  "should_process state = (if truthy (error state) then lit ''error'' else lit ''process'')"

section \<open>The graph\<close>

text \<open>
  An outgoing edge of a node is either \<^verbatim>\<open>add_edge\<close> (one target) or
  \<^verbatim>\<open>add_conditional_edges\<close> (a router and the targets of its labels). \<open>END\<close> is the
  terminal marker of the graph library.
\<close>

datatype edge =
  Direct pystr
| Conditional "ContentState \<Rightarrow> pystr" "(pystr \<times> pystr) list"

record StateGraph =
  nodes :: "(pystr \<times> (ContentState \<Rightarrow> ContentState)) list"
  edges :: "(pystr \<times> edge) list"
  entry_point :: pystr

text \<open>The constant \<^verbatim>\<open>END\<close> that the source imports from the graph library.\<close>

definition END :: pystr where
  "END = lit ''__end__''"

text \<open>The dictionary given to \<^verbatim>\<open>add_conditional_edges\<close>: the target of each label of the
  router.\<close>

definition routes :: "(pystr \<times> pystr) list" where
  "routes = [(lit ''process'', lit ''process_content''), (lit ''error'', lit ''handle_error'')]"

text \<open>\<^verbatim>\<open>_create_workflow\<close>: the four nodes, the edges and the entry point.\<close>

definition create_workflow :: "case_tables \<Rightarrow> StateGraph" where
  "create_workflow db =
     \<lparr>nodes = [(lit ''validate_input'', validate_input),
               (lit ''process_content'', process_content db),
               (lit ''format_output'', format_output),
               (lit ''handle_error'', handle_error)],
      edges = [(lit ''validate_input'', Conditional should_process routes),
               (lit ''process_content'', Direct (lit ''format_output'')),
               (lit ''format_output'', Direct END),
               (lit ''handle_error'', Direct END)],
      entry_point = lit ''validate_input''\<rparr>"

text \<open>The dictionary that \<^verbatim>\<open>run\<close> builds from its argument.\<close>

definition initial_state :: "pystr \<Rightarrow> ContentState" where
  "initial_state c =
     \<lparr>messages = Some [], current_step = Some [], content = Some c,
      processed_content = Some [], final_result = Some [], error = Some []\<rparr>"

section \<open>Merging an update and running the graph\<close>

text \<open>
  Modelled from the spec: the merge of a node's partial update into the state and the
  executor of the graph belong to the graph library that the source imports
  (\<^verbatim>\<open>StateGraph.compile\<close>, \<^verbatim>\<open>invoke\<close>), which is not part of the repository. The
  source fixes the strategies: \<^verbatim>\<open>messages\<close> is declared with \<^verbatim>\<open>operator.add\<close>
  (append), every other field has no reducer (replace). A missing \<^verbatim>\<open>messages\<close> value
  counts as the empty list, the zero value of the field.
\<close>

text \<open>Modelled from the spec: the replace strategy, for one field. The value of the update
  overwrites the prior value; a field missing from the update keeps it.\<close>

definition replace_field :: "'a option \<Rightarrow> 'a option \<Rightarrow> 'a option" where
  "replace_field cur upd = (case upd of None \<Rightarrow> cur | Some v \<Rightarrow> Some v)"

text \<open>Modelled from the spec: the append strategy, for one field. The values of the update
  are appended to the prior list, in their order, duplicates kept.\<close>

definition append_field :: "'a list option \<Rightarrow> 'a list option \<Rightarrow> 'a list option" where
  "append_field cur upd = (case upd of None \<Rightarrow> cur | Some vs \<Rightarrow> Some (dict_get cur [] @ vs))"

text \<open>Modelled from the spec: the merge of a partial update into the state, with the
  strategy the source declares for each field.\<close>

definition merge :: "ContentState \<Rightarrow> ContentState \<Rightarrow> ContentState" where
  "merge current update =
     \<lparr>messages = append_field (messages current) (messages update),
      current_step = replace_field (current_step current) (current_step update),
      content = replace_field (content current) (content update),
      processed_content = replace_field (processed_content current) (processed_content update),
      final_result = replace_field (final_result current) (final_result update),
      error = replace_field (error current) (error update)\<rparr>"

text \<open>Modelled from the spec: the causes of a failed run and the two outcomes of a run.\<close>

datatype cause =
  UnknownNode pystr
| RouterInconsistency pystr
| ConstructionError pystr
| StepLimitExceeded

datatype outcome = Completed | Failed cause

text \<open>
  Modelled from the spec: one step invokes the current node, merges its update and
  determines the next node, through the router when the edge is conditional; the run
  is Completed when the next node is the terminal marker and Failed when the node is
  not registered, the router's label has no target, the node has no outgoing edge, or
  the steps are used up. The first argument counts the steps that are left. The
  registries are read as dictionaries: the first entry of a name counts.
\<close>

fun exec :: "StateGraph \<Rightarrow> nat \<Rightarrow> pystr \<Rightarrow> ContentState \<Rightarrow> outcome \<times> ContentState" where
  "exec g 0 n s = (Failed StepLimitExceeded, s)"
| "exec g (Suc k) n s =
     (case map_of (nodes g) n of
        None \<Rightarrow> (Failed (UnknownNode n), s)
      | Some f \<Rightarrow>
          (let s' = merge s (f s) in
           case map_of (edges g) n of
             None \<Rightarrow> (Failed (ConstructionError n), s')
           | Some (Direct d) \<Rightarrow> if d = END then (Completed, s') else exec g k d s'
           | Some (Conditional r m) \<Rightarrow>
               (case map_of m (r s') of
                  None \<Rightarrow> (Failed (RouterInconsistency (r s')), s')
                | Some d \<Rightarrow> if d = END then (Completed, s') else exec g k d s')))"

text \<open>Modelled from the spec: the default bound on the steps of a run.\<close>

definition max_steps :: nat where
  "max_steps = 50"

text \<open>\<^verbatim>\<open>run\<close>: the initial state is handed to the compiled graph, which starts at the
  entry point.\<close>

definition run :: "case_tables \<Rightarrow> pystr \<Rightarrow> outcome \<times> ContentState" where
  "run db c =
     exec (create_workflow db) max_steps (entry_point (create_workflow db)) (initial_state c)"

text \<open>
  Modelled from the spec: the state machine of a run as a relation between its start
  (the steps that are left, the current node, the state) and its result, over the
  registries as the calls of \<^verbatim>\<open>add_node\<close>, \<^verbatim>\<open>add_edge\<close> and
  \<^verbatim>\<open>add_conditional_edges\<close> fill them. A step may take any entry that the registries
  hold for the current node and for the label of the router, so a graph with two
  entries for one node or one label has runs with different results; no order of the
  entries is assumed. There is one rule for each transition: the steps are used up,
  the node is unknown, the node has no outgoing edge, the edge leads to the terminal
  marker or to a next node, directly or through the router, and the router gives a
  label without a target.
\<close>

inductive executes ::
  "StateGraph \<Rightarrow> nat \<Rightarrow> pystr \<Rightarrow> ContentState \<Rightarrow> outcome \<times> ContentState \<Rightarrow> bool"
  for g :: StateGraph where
  step_limit:
    "executes g 0 n s (Failed StepLimitExceeded, s)"
| unknown_node:
    "n \<notin> fst ` set (nodes g) \<Longrightarrow> executes g (Suc k) n s (Failed (UnknownNode n), s)"
| no_edge:
    "(n, f) \<in> set (nodes g) \<Longrightarrow> n \<notin> fst ` set (edges g) \<Longrightarrow>
     executes g (Suc k) n s (Failed (ConstructionError n), merge s (f s))"
| direct_end:
    "(n, f) \<in> set (nodes g) \<Longrightarrow> (n, Direct d) \<in> set (edges g) \<Longrightarrow> d = END \<Longrightarrow>
     executes g (Suc k) n s (Completed, merge s (f s))"
| direct_next:
    "(n, f) \<in> set (nodes g) \<Longrightarrow> (n, Direct d) \<in> set (edges g) \<Longrightarrow> d \<noteq> END \<Longrightarrow>
     executes g k d (merge s (f s)) r \<Longrightarrow> executes g (Suc k) n s r"
| router_undeclared:
    "(n, f) \<in> set (nodes g) \<Longrightarrow> (n, Conditional rt m) \<in> set (edges g) \<Longrightarrow>
     rt (merge s (f s)) \<notin> fst ` set m \<Longrightarrow>
     executes g (Suc k) n s (Failed (RouterInconsistency (rt (merge s (f s)))), merge s (f s))"
| router_end:
    "(n, f) \<in> set (nodes g) \<Longrightarrow> (n, Conditional rt m) \<in> set (edges g) \<Longrightarrow>
     (rt (merge s (f s)), d) \<in> set m \<Longrightarrow> d = END \<Longrightarrow>
     executes g (Suc k) n s (Completed, merge s (f s))"
| router_next:
    "(n, f) \<in> set (nodes g) \<Longrightarrow> (n, Conditional rt m) \<in> set (edges g) \<Longrightarrow>
     (rt (merge s (f s)), d) \<in> set m \<Longrightarrow> d \<noteq> END \<Longrightarrow>
     executes g k d (merge s (f s)) r \<Longrightarrow> executes g (Suc k) n s r"


section \<open>Facts about the string operations\<close>

lemma strip_Nil: "strip [] = []"
  by (simp add: strip_def lstrip_def rstrip_def)

lemma strip_blank:
  assumes "\<forall>ch\<in>set c. isspace ch"
  shows "strip c = []"
proof -
  from assms have "dropWhile isspace c = []" by simp
  then show ?thesis by (simp only: strip_def lstrip_def rstrip_def rev.simps dropWhile.simps)
qed

lemma strip_Nil_iff: "strip c = [] \<longleftrightarrow> (\<forall>ch\<in>set c. isspace ch)"
proof
  assume e: "strip c = []"
  show "\<forall>ch\<in>set c. isspace ch"
  proof (cases "dropWhile isspace c")
    case Nil
    then show ?thesis by (simp add: dropWhile_eq_Nil_conv)
  next
    case (Cons x xs)
    then have "\<not> isspace x" using hd_dropWhile[of isspace c] by simp
    moreover from e Cons have "\<forall>y\<in>set (x # xs). isspace y"
      by (simp add: strip_def lstrip_def rstrip_def dropWhile_eq_Nil_conv)
    ultimately show ?thesis by simp
  qed
qed (rule strip_blank)

lemma length_strip_le: "length (strip c) \<le> length c"
proof -
  have "length (strip c) \<le> length (dropWhile isspace c)"
    using length_dropWhile_le[of isspace "rev (dropWhile isspace c)"]
    by (simp add: strip_def lstrip_def rstrip_def)
  also have "\<dots> \<le> length c" by (rule length_dropWhile_le)
  finally show ?thesis .
qed

lemma rstrip_keep: "s \<noteq> [] \<Longrightarrow> \<not> isspace (last s) \<Longrightarrow> rstrip s = s"
  by (cases s rule: rev_cases) (simp_all add: rstrip_def)

lemma lstrip_keep: "s \<noteq> [] \<Longrightarrow> \<not> isspace (hd s) \<Longrightarrow> lstrip s = s"
  by (cases s) (simp_all add: lstrip_def)

lemma strip_keep: "s \<noteq> [] \<Longrightarrow> \<not> isspace (hd s) \<Longrightarrow> \<not> isspace (last s) \<Longrightarrow> strip s = s"
  by (simp add: strip_def lstrip_keep rstrip_keep)

lemma strip_ends:
  assumes "strip c \<noteq> []"
  shows "\<not> isspace (hd (strip c))" and "\<not> isspace (last (strip c))"
proof -
  let ?l = "dropWhile isspace c"
  let ?r = "dropWhile isspace (rev ?l)"
  from assms have r: "?r \<noteq> []" by (simp add: strip_def lstrip_def rstrip_def)
  then have l: "?l \<noteq> []" by (metis dropWhile.simps(1) rev.simps(1))
  from r have "\<not> isspace (hd ?r)" by (rule hd_dropWhile)
  then show "\<not> isspace (last (strip c))"
    using r by (simp add: strip_def lstrip_def rstrip_def last_rev)
  from l have hl: "\<not> isspace (hd ?l)" by (rule hd_dropWhile)
  have "rev ?l = takeWhile isspace (rev ?l) @ ?r" by simp
  then have "?l = rev ?r @ rev (takeWhile isspace (rev ?l))"
    by (metis rev_append rev_rev_ident)
  with r have "hd ?l = hd (rev ?r)" by (metis hd_append2 rev_is_Nil_conv)
  with hl show "\<not> isspace (hd (strip c))"
    by (simp add: strip_def lstrip_def rstrip_def)
qed

lemma strip_strip: "strip (strip c) = strip c"
proof (cases "strip c = []")
  case True
  have "strip [] = []" by (simp add: strip_def lstrip_def rstrip_def)
  with True show ?thesis by simp
next
  case False
  then show ?thesis by (simp add: strip_keep strip_ends)
qed

lemma strip_shorter:
  assumes "c \<noteq> []" and "isspace (hd c) \<or> isspace (last c)"
  shows "length (strip c) < length c"
proof -
  from assms(2) show ?thesis
  proof
    assume h: "isspace (hd c)"
    with assms(1) obtain x xs where c: "c = x # xs" and x: "isspace x" by (cases c) auto
    have "length (strip c) \<le> length (dropWhile isspace c)"
      using length_dropWhile_le[of isspace "rev (dropWhile isspace c)"]
      by (simp add: strip_def lstrip_def rstrip_def)
    also have "\<dots> \<le> length xs" using c x by (simp add: length_dropWhile_le)
    finally show ?thesis using c by simp
  next
    assume h: "isspace (last c)"
    with assms(1) obtain x xs where c: "c = xs @ [x]" and x: "isspace x"
      by (cases c rule: rev_cases) auto
    show ?thesis
    proof (cases "strip c = []")
      case True
      with assms(1) show ?thesis by simp
    next
      case False
      have "\<not> isspace (last (strip c))" using False by (rule strip_ends)
      have le: "length (strip c) \<le> length c" by (rule length_strip_le)
      have "strip c \<noteq> c"
      proof
        assume "strip c = c"
        with \<open>\<not> isspace (last (strip c))\<close> h show False by simp
      qed
      moreover have "length (strip c) = length c \<Longrightarrow> strip c = c"
      proof -
        assume eq: "length (strip c) = length c"
        have a: "length (strip c) \<le> length (dropWhile isspace c)"
          using length_dropWhile_le[of isspace "rev (dropWhile isspace c)"]
          by (simp add: strip_def lstrip_def rstrip_def)
        have b: "length (dropWhile isspace c) \<le> length c" by (rule length_dropWhile_le)
        from eq a b have l: "length (dropWhile isspace c) = length c" by simp
        have "c = takeWhile isspace c @ dropWhile isspace c" by simp
        then have "length c = length (takeWhile isspace c) + length (dropWhile isspace c)"
          by (metis length_append)
        with l have "takeWhile isspace c = []" by simp
        then have dc: "dropWhile isspace c = c" by (metis takeWhile_dropWhile_id append_Nil)
        from eq dc have l2: "length (dropWhile isspace (rev c)) = length (rev c)"
          by (simp add: strip_def lstrip_def rstrip_def)
        have "rev c = takeWhile isspace (rev c) @ dropWhile isspace (rev c)" by simp
        then have "length (rev c) = length (takeWhile isspace (rev c)) + length (dropWhile isspace (rev c))"
          by (metis length_append)
        with l2 have "takeWhile isspace (rev c) = []" by simp
        then have "dropWhile isspace (rev c) = rev c" by (metis takeWhile_dropWhile_id append_Nil)
        with dc show "strip c = c" by (simp add: strip_def lstrip_def rstrip_def)
      qed
      ultimately show ?thesis using le by fastforce
    qed
  qed
qed

lemma rstrip_append_spaces:
  assumes "\<forall>x\<in>set w. isspace x"
  shows "rstrip (s @ w) = rstrip s"
proof -
  have "dropWhile isspace (rev w @ rev s) = dropWhile isspace (rev s)"
    using assms by (intro dropWhile_append2) simp
  then show ?thesis by (simp add: rstrip_def)
qed

section \<open>The decimal digits and the summary text\<close>

lemma str_nat_nonempty: "str_nat n \<noteq> []"
  by (subst str_nat.simps) simp

lemma last_str_nat: "last (str_nat n) = 48 + n mod 10"
  by (subst str_nat.simps) simp

lemma digit_not_space: "\<not> isspace (48 + n mod 10)"
proof -
  have "n mod 10 < 10" by simp
  then show ?thesis unfolding isspace_def by linarith
qed

lemma str_nat_inj: "str_nat m = str_nat n \<Longrightarrow> m = n"
proof (induction m arbitrary: n rule: str_nat.induct)
  case (1 m)
  show ?case
  proof (cases "m < 10")
    case True
    note m = this
    show ?thesis
    proof (cases "n < 10")
      case True
      with m "1.prems" show ?thesis
        by (simp add: str_nat.simps[of m] str_nat.simps[of n])
    next
      case False
      with m "1.prems" str_nat_nonempty[of "n div 10"] show ?thesis
        by (simp add: str_nat.simps[of m] str_nat.simps[of n])
    qed
  next
    case False
    note m = this
    show ?thesis
    proof (cases "n < 10")
      case True
      with m "1.prems" str_nat_nonempty[of "m div 10"] show ?thesis
        by (simp add: str_nat.simps[of m] str_nat.simps[of n])
    next
      case False
      with m "1.prems" have e: "str_nat (m div 10) = str_nat (n div 10)" and r: "m mod 10 = n mod 10"
        by (simp_all add: str_nat.simps[of m] str_nat.simps[of n])
      from "1.IH"[OF m e] have "m div 10 = n div 10" .
      with r show ?thesis by (metis div_mult_mod_eq)
    qed
  qed
qed

lemma str_nat_values:
  "str_nat 2 = lit ''2''" "str_nat 34 = lit ''34''" "str_nat 35 = lit ''35''"
  by (simp_all add: str_nat.simps [of 2] str_nat.simps [of 34] str_nat.simps [of 35]
      str_nat.simps [of 3] lit_def)

lemma summary_eq:
  "summary p a b k =
     [memo_emoji] @ lit '' Processed Content:'' @ [10] @ p @ [10, 10, chart_emoji] @
     lit '' Statistics:'' @ [10] @
     lit ''- Original length: '' @ str_nat a @ lit '' characters'' @ [10] @
     lit ''- Processed length: '' @ str_nat b @ lit '' characters'' @ [10] @
     lit ''- Processing steps: '' @ str_nat k"
proof -
  let ?body = "lit '' Processed Content:'' @ [10] @ p @ [10, 10, chart_emoji] @
     lit '' Statistics:'' @ [10] @
     lit ''- Original length: '' @ str_nat a @ lit '' characters'' @ [10] @
     lit ''- Processed length: '' @ str_nat b @ lit '' characters'' @ [10] @
     lit ''- Processing steps: ''"
  let ?tail = "[10] @ lit ''        ''"
  have sp: "\<forall>x\<in>set ?tail. isspace x" by (simp add: lit_def isspace_def)
  have l: "lstrip ([10, memo_emoji] @ ?body @ str_nat k @ ?tail) = [memo_emoji] @ ?body @ str_nat k @ ?tail"
    by (simp add: lstrip_def isspace_def memo_emoji_def)
  have "rstrip ([memo_emoji] @ ?body @ str_nat k @ ?tail) = rstrip (([memo_emoji] @ ?body @ str_nat k) @ ?tail)"
    by simp
  also have "\<dots> = rstrip ([memo_emoji] @ ?body @ str_nat k)"
    using sp by (rule rstrip_append_spaces)
  also have "\<dots> = [memo_emoji] @ ?body @ str_nat k"
    by (rule rstrip_keep) (simp_all add: str_nat_nonempty last_str_nat digit_not_space)
  finally have r: "rstrip ([memo_emoji] @ ?body @ str_nat k @ ?tail) = [memo_emoji] @ ?body @ str_nat k" .
  have "summary p a b k = strip ([10, memo_emoji] @ ?body @ str_nat k @ ?tail)"
    by (simp add: summary_def)
  also have "\<dots> = [memo_emoji] @ ?body @ str_nat k"
    unfolding strip_def l r ..
  finally show ?thesis by simp
qed

section \<open>Occurrences and the replacement of double spaces\<close>

lemma contains_sublist: "contains sub s \<longleftrightarrow> sublist sub s"
  by (induction s) (simp_all add: sublist_Cons_right)

lemma contains_append: "contains sub (pre @ sub @ post)"
  by (simp add: contains_sublist)

lemma lit_spaces: "lit '' '' = [32]" "lit ''  '' = [32, 32]" "lit ''   '' = [32, 32, 32]" "lit ''.'' = [46]"
  by (simp_all add: lit_def)

lemma replace_pair:
  "replace [32, 32] [32] [] = []"
  "replace [32, 32] [32] [a] = [a]"
  "replace [32, 32] [32] (a # b # xs) =
     (if a = 32 \<and> b = 32 then 32 # replace [32, 32] [32] xs
      else a # replace [32, 32] [32] (b # xs))"
  by auto

lemma replace_pair_hit:
  assumes "a = 32 \<and> b = 32"
  shows "replace [32, 32] [32] (a # b # xs) = 32 # replace [32, 32] [32] xs"
proof -
  have "replace [32, 32] [32] (a # b # xs) =
     (if a = 32 \<and> b = 32 then 32 # replace [32, 32] [32] xs
      else a # replace [32, 32] [32] (b # xs))"
    by (rule replace_pair(3))
  also have "\<dots> = 32 # replace [32, 32] [32] xs" using assms by (rule if_P)
  finally show ?thesis .
qed

lemma replace_pair_miss:
  assumes "\<not> (a = 32 \<and> b = 32)"
  shows "replace [32, 32] [32] (a # b # xs) = a # replace [32, 32] [32] (b # xs)"
proof -
  have "replace [32, 32] [32] (a # b # xs) =
     (if a = 32 \<and> b = 32 then 32 # replace [32, 32] [32] xs
      else a # replace [32, 32] [32] (b # xs))"
    by (rule replace_pair(3))
  also have "\<dots> = a # replace [32, 32] [32] (b # xs)" using assms by (rule if_not_P)
  finally show ?thesis .
qed

lemma double_Cons:
  "contains [32, 32] [] = False"
  "contains [32, 32] [a] = False"
  "contains [32, 32] (a # b # xs) = ((a = 32 \<and> b = 32) \<or> contains [32, 32] (b # xs))"
  by auto

lemma triple_Cons:
  "contains [32, 32, 32] (a # b # xs) =
     ((a = 32 \<and> b = 32 \<and> xs \<noteq> [] \<and> hd xs = 32) \<or> contains [32, 32, 32] (b # xs))"
  by (cases xs) auto

lemma replace_pair_hd:
  "replace [32, 32] [32] s = [] \<longleftrightarrow> s = []"
  "s \<noteq> [] \<Longrightarrow> hd (replace [32, 32] [32] s) = hd s"
  by (cases s; cases "tl s"; auto)+

lemma replace_pair_no_double:
  "\<not> contains [32, 32, 32] s \<Longrightarrow> \<not> contains [32, 32] (replace [32, 32] [32] s)"
proof (induction s rule: induct_list012)
  case 1
  show ?case by simp
next
  case (2 a)
  show ?case by simp
next
  case (3 a b xs)
  from "3.prems" have nb: "\<not> contains [32, 32, 32] (b # xs)"
    and nh: "\<not> (a = 32 \<and> b = 32 \<and> xs \<noteq> [] \<and> hd xs = 32)"
    by (simp_all only: triple_Cons) blast+
  from nb have nx: "\<not> contains [32, 32, 32] xs" by simp
  show ?case
  proof (cases "a = 32 \<and> b = 32")
    case True
    with nh have h: "xs = [] \<or> hd xs \<noteq> 32" by blast
    have ih: "\<not> contains [32, 32] (replace [32, 32] [32] xs)" using nx by (rule "3.IH"(1))
    have r: "replace [32, 32] [32] (a # b # xs) = 32 # replace [32, 32] [32] xs"
      using True by (rule replace_pair_hit)
    show ?thesis
    proof (cases xs)
      case Nil
      then show ?thesis unfolding r by simp
    next
      case (Cons y ys)
      with h have y: "y \<noteq> 32" by simp
      obtain z zs where z: "replace [32, 32] [32] xs = z # zs" and zy: "z = y"
        using replace_pair_hd [of xs] Cons by (cases "replace [32, 32] [32] xs") auto
      from ih show ?thesis unfolding r z using y zy by (simp only: double_Cons) blast
    qed
  next
    case False
    have ih: "\<not> contains [32, 32] (replace [32, 32] [32] (b # xs))" using nb by (rule "3.IH"(2))
    have r: "replace [32, 32] [32] (a # b # xs) = a # replace [32, 32] [32] (b # xs)"
      using False by (rule replace_pair_miss)
    obtain z zs where z: "replace [32, 32] [32] (b # xs) = z # zs" and zb: "z = b"
      using replace_pair_hd [of "b # xs"] by (cases "replace [32, 32] [32] (b # xs)") auto
    from ih show ?thesis unfolding r z using False zb by (simp only: double_Cons) blast
  qed
qed

lemma replace_pair_unchanged:
  "\<not> contains [32, 32] s \<Longrightarrow> replace [32, 32] [32] s = s"
proof (induction s rule: induct_list012)
  case 1
  show ?case by simp
next
  case (2 a)
  show ?case by simp
next
  case (3 a b xs)
  from "3.prems" have n: "\<not> (a = 32 \<and> b = 32)" and nb: "\<not> contains [32, 32] (b # xs)"
    by (simp_all only: double_Cons) blast+
  from nb have "replace [32, 32] [32] (b # xs) = b # xs" by (rule "3.IH"(2))
  with replace_pair_miss [OF n, of xs] show ?case by (simp only:)
qed

lemma set_strip: "set (strip s) \<subseteq> set s"
proof
  fix x
  assume "x \<in> set (strip s)"
  then have "x \<in> set (dropWhile isspace (rev (dropWhile isspace s)))"
    by (simp add: strip_def lstrip_def rstrip_def)
  then have "x \<in> set (rev (dropWhile isspace s))" by (rule set_dropWhileD)
  then have "x \<in> set (dropWhile isspace s)" by simp
  then show "x \<in> set s" by (rule set_dropWhileD)
qed

lemma set_replace_pair: "set (replace [32, 32] [32] s) \<subseteq> set s"
proof (induction s rule: induct_list012)
  case 1
  show ?case by simp
next
  case (2 a)
  show ?case by simp
next
  case (3 a b xs)
  show ?case
  proof (cases "a = 32 \<and> b = 32")
    case True
    with "3.IH"(1) show ?thesis unfolding replace_pair_hit [OF True] by auto
  next
    case False
    with "3.IH"(2) show ?thesis unfolding replace_pair_miss [OF False] by auto
  qed
qed

lemma map_nth_tail: "map (\<lambda>i. f ((a # rest) ! i)) [1..<Suc (length rest)] = map f rest"
proof -
  have "[1..<Suc (length rest)] = map Suc [0..<length rest]"
    by (simp add: map_Suc_upt)
  then have "map (\<lambda>i. f ((a # rest) ! i)) [1..<Suc (length rest)] =
             map (\<lambda>i. f (rest ! i)) [0..<length rest]"
    by (simp add: comp_def)
  also have "\<dots> = map f (map (\<lambda>i. rest ! i) [0..<length rest])" by (simp add: comp_def)
  also have "\<dots> = map f rest" by (simp add: map_nth)
  finally show ?thesis .
qed

text \<open>On a string of ASCII characters the tables are not asked.\<close>

lemma capitalize_ascii:
  assumes "\<forall>c\<in>set s. c < 128"
  shows "capitalize db s =
           (case s of [] \<Rightarrow> [] | a # rest \<Rightarrow> ascii_upper a # map ascii_lower rest)"
proof (cases s)
  case Nil
  then show ?thesis by (simp add: capitalize_def)
next
  case (Cons a rest)
  from assms Cons have a: "a < 128" by simp
  have low: "to_lower db (a # rest) i = [ascii_lower ((a # rest) ! i)]"
    if "i \<in> set [1..<Suc (length rest)]" for i
  proof -
    from that have "i < length (a # rest)" by auto
    then have "(a # rest) ! i \<in> set (a # rest)" by (rule nth_mem)
    with assms Cons have "(a # rest) ! i < 128" by blast
    then show ?thesis by (simp add: to_lower_def)
  qed
  have "map (to_lower db (a # rest)) [1..<Suc (length rest)] =
        map (\<lambda>i. [ascii_lower ((a # rest) ! i)]) [1..<Suc (length rest)]"
    using low by (intro map_cong) simp_all
  also have "\<dots> = map (\<lambda>c. [ascii_lower c]) rest" by (rule map_nth_tail)
  finally have "concat (map (to_lower db (a # rest)) [1..<Suc (length rest)]) = map ascii_lower rest"
    by (simp add: concat_map_singleton)
  with a Cons show ?thesis by (simp add: capitalize_def to_title_def)
qed

lemma ascii_case_space: "ascii_upper c = 32 \<longleftrightarrow> c = 32" "ascii_lower c = 32 \<longleftrightarrow> c = 32"
  by (auto simp add: ascii_upper_def ascii_lower_def)

lemma double_map_lower: "contains [32, 32] (map ascii_lower s) = contains [32, 32] s"
  by (induction s rule: induct_list012) (simp_all only: list.map double_Cons ascii_case_space)

lemma double_ascii_capital:
  "contains [32, 32] (case s of [] \<Rightarrow> [] | a # rest \<Rightarrow> ascii_upper a # map ascii_lower rest) =
   contains [32, 32] s"
proof (cases s)
  case Nil
  then show ?thesis by simp
next
  case (Cons a t)
  note s = this
  show ?thesis
  proof (cases t)
    case Nil
    with s show ?thesis by simp
  next
    case (Cons b xs)
    have "contains [32, 32] (map ascii_lower (b # xs)) = contains [32, 32] (b # xs)"
      by (rule double_map_lower)
    then show ?thesis unfolding s Cons
      by (simp only: list.case list.map double_Cons ascii_case_space)
  qed
qed

lemma double_append_dot: "contains [32, 32] (s @ [46]) = contains [32, 32] s"
  by (induction s rule: induct_list012) (simp_all only: append.simps double_Cons, simp_all)

lemma endswith_process_text: "endswith (process_text db c) (lit ''.'')"
  by (simp add: process_text_def Let_def endswith_def suffix_def)

text \<open>The processed text of an ASCII content, without the tables.\<close>

lemma process_text_ascii:
  assumes "\<forall>ch\<in>set c. ch < 128"
  shows "capitalize db (replace [32, 32] [32] (strip c)) =
           (case replace [32, 32] [32] (strip c) of [] \<Rightarrow> []
            | a # rest \<Rightarrow> ascii_upper a # map ascii_lower rest)"
proof -
  have "set (replace [32, 32] [32] (strip c)) \<subseteq> set c"
    using set_replace_pair [of "strip c"] set_strip [of c] by blast
  with assms have "\<forall>ch\<in>set (replace [32, 32] [32] (strip c)). ch < 128" by blast
  then show ?thesis by (rule capitalize_ascii)
qed

lemma process_text_ascii_eval:
  assumes "\<forall>ch\<in>set c. ch < 128"
  shows "process_text db c =
           (let p = (case replace [32, 32] [32] (strip c) of [] \<Rightarrow> []
                     | a # rest \<Rightarrow> ascii_upper a # map ascii_lower rest)
            in if \<not> endswith p [46] then p @ [46] else p)"
  unfolding process_text_def lit_spaces Let_def process_text_ascii [OF assms] ..

lemma process_text_no_double:
  assumes "\<forall>ch\<in>set c. ch < 128" and "\<not> contains (lit ''   '') (strip c)"
  shows "\<not> contains (lit ''  '') (process_text db c)"
proof -
  from assms(2) have "\<not> contains [32, 32] (replace [32, 32] [32] (strip c))"
    unfolding lit_spaces by (rule replace_pair_no_double)
  then have "\<not> contains [32, 32] (capitalize db (replace [32, 32] [32] (strip c)))"
    unfolding process_text_ascii [OF assms(1)] double_ascii_capital .
  then show ?thesis
    by (simp add: process_text_def Let_def lit_spaces double_append_dot
        del: replace.simps contains.simps)
qed

lemma process_text_three_spaces: "process_text db (lit ''a   b'') = lit ''A  b.''"
proof -
  have s: "strip (lit ''a   b'') = lit ''a   b''"
    by (simp add: lit_def strip_def lstrip_def rstrip_def isspace_def)
  have a: "\<forall>ch\<in>set (lit ''a   b''). ch < 128" by (simp add: lit_def)
  have "capitalize db (replace [32, 32] [32] (strip (lit ''a   b''))) = lit ''A  b''"
    using process_text_ascii [OF a, of db] unfolding s
    by (simp add: lit_def ascii_upper_def ascii_lower_def)
  then show ?thesis
    by (simp add: process_text_def Let_def lit_spaces del: replace.simps)
       (simp add: lit_def endswith_def suffix_to_prefix)
qed

text \<open>
  With the entries of the Unicode tables for the sharp s (title case "Ss") and for the
  small e with acute (title case: the capital one), the model gives the texts that
  the runtime gives: the sharp s is expanded, and the length grows by one.
\<close>

lemma process_text_sharp_s:
  assumes "title_of db 223 = lit ''Ss''"
  shows "process_text db [223, 97] = lit ''Ssa.''"
    and "length (process_text db [223, 97]) = 4"
proof -
  have s: "strip [223, 97] = [223, 97]"
    by (simp add: strip_def lstrip_def rstrip_def isspace_def)
  have c: "capitalize db [223, 97] = lit ''Ssa''"
    using assms by (simp add: capitalize_def to_title_def to_lower_def ascii_lower_def lit_def)
  show "process_text db [223, 97] = lit ''Ssa.''"
    unfolding process_text_def s Let_def lit_spaces
    by (simp add: c) (simp add: lit_def endswith_def suffix_to_prefix)
  then show "length (process_text db [223, 97]) = 4" by (simp add: lit_def)
qed

lemma process_text_e_acute:
  assumes "title_of db 233 = [201]"
  shows "process_text db ([233] @ lit ''COLE'') = [201] @ lit ''cole.''"
proof -
  have s: "strip ([233] @ lit ''COLE'') = [233] @ lit ''COLE''"
    by (simp add: strip_def lstrip_def rstrip_def isspace_def lit_def)
  have u: "[1..<5] = [1, 2, 3, 4]" by (simp add: upt_rec)
  have c: "capitalize db ([233] @ lit ''COLE'') = [201] @ lit ''cole''"
    using assms by (simp add: capitalize_def to_title_def to_lower_def ascii_lower_def lit_def u)
  show ?thesis
    unfolding process_text_def s Let_def lit_spaces
    by (simp add: lit_def)
       (simp add: c [unfolded lit_def, simplified] endswith_def suffix_to_prefix)
qed

section \<open>Facts about the executor\<close>

lemma exec_pos:
  "0 < k \<Longrightarrow> exec g k n s =
     (case map_of (nodes g) n of
        None \<Rightarrow> (Failed (UnknownNode n), s)
      | Some f \<Rightarrow>
          (let s' = merge s (f s) in
           case map_of (edges g) n of
             None \<Rightarrow> (Failed (ConstructionError n), s')
           | Some (Direct d) \<Rightarrow> if d = END then (Completed, s') else exec g (k - 1) d s'
           | Some (Conditional r m) \<Rightarrow>
               (case map_of m (r s') of
                  None \<Rightarrow> (Failed (RouterInconsistency (r s')), s')
                | Some d \<Rightarrow> if d = END then (Completed, s') else exec g (k - 1) d s')))"
  by (cases k) (simp_all add: Let_def split: option.split edge.split)

lemma node_lookup:
  "map_of (nodes (create_workflow db)) (lit ''validate_input'') = Some validate_input"
  "map_of (nodes (create_workflow db)) (lit ''process_content'') = Some (process_content db)"
  "map_of (nodes (create_workflow db)) (lit ''format_output'') = Some format_output"
  "map_of (nodes (create_workflow db)) (lit ''handle_error'') = Some handle_error"
  by (simp_all add: create_workflow_def lit_def)

lemma edge_lookup:
  "map_of (edges (create_workflow db)) (lit ''validate_input'') =
     Some (Conditional should_process routes)"
  "map_of (edges (create_workflow db)) (lit ''process_content'') = Some (Direct (lit ''format_output''))"
  "map_of (edges (create_workflow db)) (lit ''format_output'') = Some (Direct END)"
  "map_of (edges (create_workflow db)) (lit ''handle_error'') = Some (Direct END)"
  by (simp_all add: create_workflow_def lit_def)

lemma entry_lookup: "entry_point (create_workflow db) = lit ''validate_input''"
  by (simp add: create_workflow_def)

lemma route_lookup:
  "map_of routes (lit ''process'') = Some (lit ''process_content'')"
  "map_of routes (lit ''error'') = Some (lit ''handle_error'')"
  by (simp_all add: routes_def lit_def)

lemma not_END:
  "lit ''process_content'' \<noteq> END" "lit ''handle_error'' \<noteq> END" "lit ''format_output'' \<noteq> END"
  by (simp_all add: END_def lit_def)

lemma run_error_path:
  assumes "truthy (error (merge (initial_state c) (validate_input (initial_state c))))"
  shows "run db c = (Completed,
     (let s1 = merge (initial_state c) (validate_input (initial_state c))
      in merge s1 (handle_error s1)))"
  using assms
  by (simp add: run_def max_steps_def exec_pos node_lookup edge_lookup route_lookup not_END
      should_process_def Let_def entry_lookup)

lemma run_success_path:
  assumes "\<not> truthy (error (merge (initial_state c) (validate_input (initial_state c))))"
  shows "run db c = (Completed,
     (let s1 = merge (initial_state c) (validate_input (initial_state c));
          s2 = merge s1 (process_content db s1)
      in merge s2 (format_output s2)))"
  using assms
  by (simp add: run_def max_steps_def exec_pos node_lookup edge_lookup route_lookup not_END
      should_process_def Let_def entry_lookup)


text \<open>
  The relation is not a function of the graph in general: with two edges from one
  node, one to the terminal marker and one to a next node, a run of one step can be
  Completed and can be Failed.
\<close>

lemma executes_two_results:
  "executes \<lparr>nodes = [(lit ''a'', id)],
             edges = [(lit ''a'', Direct END), (lit ''a'', Direct (lit ''b''))],
             entry_point = lit ''a''\<rparr> (Suc 0) (lit ''a'') s (Completed, merge s s) \<and>
   executes \<lparr>nodes = [(lit ''a'', id)],
             edges = [(lit ''a'', Direct END), (lit ''a'', Direct (lit ''b''))],
             entry_point = lit ''a''\<rparr> (Suc 0) (lit ''a'') s (Failed StepLimitExceeded, merge s s) \<and>
   (Completed, merge s s) \<noteq> (Failed StepLimitExceeded, merge s s)"
proof -
  let ?g = "\<lparr>nodes = [(lit ''a'', id)],
             edges = [(lit ''a'', Direct END), (lit ''a'', Direct (lit ''b''))],
             entry_point = lit ''a''\<rparr>"
  have n: "(lit ''a'', id) \<in> set (nodes ?g)" by simp
  have e1: "(lit ''a'', Direct END) \<in> set (edges ?g)" by simp
  have e2: "(lit ''a'', Direct (lit ''b'')) \<in> set (edges ?g)" by simp
  have b: "lit ''b'' \<noteq> END" by (simp add: END_def lit_def)
  have "executes ?g (Suc 0) (lit ''a'') s (Completed, merge s (id s))"
    using n e1 by (rule executes.direct_end) simp
  moreover have "executes ?g 0 (lit ''b'') (merge s (id s)) (Failed StepLimitExceeded, merge s (id s))"
    by (rule executes.step_limit)
  with n e2 b have "executes ?g (Suc 0) (lit ''a'') s (Failed StepLimitExceeded, merge s (id s))"
    by (rule executes.direct_next)
  ultimately show ?thesis by simp
qed






section \<open>The three paths of a run\<close>

lemma validate_input_blank:
  assumes "dict_get (content s) [] = [] \<or> strip (dict_get (content s) []) = []"
  shows "validate_input s =
     \<lparr>messages = None, current_step = Some (lit ''validate_input''), content = None,
      processed_content = None, final_result = None,
      error = Some (lit ''Input content is empty or invalid'')\<rparr>"
  using assms by (auto simp add: validate_input_def Let_def strip_Nil)

lemma validate_input_too_long:
  assumes "strip (dict_get (content s) []) \<noteq> []" and "1000 < length (dict_get (content s) [])"
  shows "validate_input s =
     \<lparr>messages = None, current_step = Some (lit ''validate_input''), content = None,
      processed_content = None, final_result = None,
      error = Some (lit ''Input content is too long (max 1000 characters)'')\<rparr>"
  using assms by (auto simp add: validate_input_def Let_def strip_Nil)

lemma validate_input_ok:
  assumes "strip (dict_get (content s) []) \<noteq> []" and "length (dict_get (content s) []) \<le> 1000"
  shows "validate_input s =
     \<lparr>messages = Some [lit ''Input validated: '' @ str_nat (length (dict_get (content s) [])) @
                        lit '' characters''],
      current_step = Some (lit ''validate_input''), content = Some (strip (dict_get (content s) [])),
      processed_content = None, final_result = None, error = Some []\<rparr>"
  using assms by (auto simp add: validate_input_def Let_def strip_Nil)

lemma lit_nonempty:
  "lit ''Input content is empty or invalid'' \<noteq> []"
  "lit ''Input content is too long (max 1000 characters)'' \<noteq> []"
  by (simp_all add: lit_def)

lemma run_blank:
  assumes "c = [] \<or> strip c = []"
  shows "run db c = (Completed,
     \<lparr>messages = Some [lit ''Error handled: '' @ lit ''Input content is empty or invalid''],
      current_step = Some (lit ''handle_error''), content = Some c,
      processed_content = Some [],
      final_result = Some ([cross_emoji] @ lit '' Error: '' @ lit ''Input content is empty or invalid''),
      error = Some (lit ''Input content is empty or invalid'')\<rparr>)"
proof -
  have v: "validate_input (initial_state c) =
     \<lparr>messages = None, current_step = Some (lit ''validate_input''), content = None,
      processed_content = None, final_result = None,
      error = Some (lit ''Input content is empty or invalid'')\<rparr>"
    using assms by (intro validate_input_blank) (simp add: initial_state_def dict_get_def)
  have t: "truthy (error (merge (initial_state c) (validate_input (initial_state c))))"
    by (simp add: v merge_def replace_field_def truthy_def lit_nonempty)
  show ?thesis
    unfolding run_error_path[OF t] Let_def v
    by (simp add: merge_def replace_field_def append_field_def handle_error_def dict_get_def
        initial_state_def Let_def)
qed

lemma run_too_long:
  assumes "strip c \<noteq> []" and "1000 < length c"
  shows "run db c = (Completed,
     \<lparr>messages = Some [lit ''Error handled: '' @ lit ''Input content is too long (max 1000 characters)''],
      current_step = Some (lit ''handle_error''), content = Some c,
      processed_content = Some [],
      final_result = Some ([cross_emoji] @ lit '' Error: '' @
                           lit ''Input content is too long (max 1000 characters)''),
      error = Some (lit ''Input content is too long (max 1000 characters)'')\<rparr>)"
proof -
  have v: "validate_input (initial_state c) =
     \<lparr>messages = None, current_step = Some (lit ''validate_input''), content = None,
      processed_content = None, final_result = None,
      error = Some (lit ''Input content is too long (max 1000 characters)'')\<rparr>"
    using assms by (intro validate_input_too_long) (simp_all add: initial_state_def dict_get_def)
  have t: "truthy (error (merge (initial_state c) (validate_input (initial_state c))))"
    by (simp add: v merge_def replace_field_def truthy_def lit_nonempty)
  show ?thesis
    unfolding run_error_path[OF t] Let_def v
    by (simp add: merge_def replace_field_def append_field_def handle_error_def dict_get_def
        initial_state_def Let_def)
qed

lemma run_valid:
  assumes "strip c \<noteq> []" and "length c \<le> 1000"
  shows "run db c = (Completed,
     \<lparr>messages = Some [lit ''Input validated: '' @ str_nat (length c) @ lit '' characters'',
                       lit ''Content processed: '' @ str_nat (length (process_text db (strip c))) @
                         lit '' characters'',
                       lit ''Output formatted successfully''],
      current_step = Some (lit ''format_output''), content = Some (strip c),
      processed_content = Some (process_text db (strip c)),
      final_result = Some (summary (process_text db (strip c)) (length (strip c))
                             (length (process_text db (strip c))) 2),
      error = Some []\<rparr>)"
proof -
  have v: "validate_input (initial_state c) =
     \<lparr>messages = Some [lit ''Input validated: '' @ str_nat (length c) @ lit '' characters''],
      current_step = Some (lit ''validate_input''), content = Some (strip c),
      processed_content = None, final_result = None, error = Some []\<rparr>"
    using assms validate_input_ok[of "initial_state c"]
    by (simp add: initial_state_def dict_get_def)
  have t: "\<not> truthy (error (merge (initial_state c) (validate_input (initial_state c))))"
    by (simp add: v merge_def replace_field_def truthy_def)
  show ?thesis
    unfolding run_success_path[OF t] Let_def v
    by (simp add: merge_def replace_field_def append_field_def process_content_def
        format_output_def dict_get_def initial_state_def Let_def numeral_2_eq_2)
qed

section \<open>The example input of the source\<close>

lemma hello_facts:
  "strip (lit ''hello world this is a test message'') = lit ''hello world this is a test message''"
  "length (lit ''hello world this is a test message'') = 34"
  "lit ''hello world this is a test message'' \<noteq> []"
  by (simp_all add: lit_def strip_def lstrip_def rstrip_def isspace_def)

lemma hello_processed:
  "process_text db (lit ''hello world this is a test message'') = lit ''Hello world this is a test message.''"
proof -
  have a: "\<forall>ch\<in>set (lit ''hello world this is a test message''). ch < 128"
    by (simp add: lit_def)
  have "capitalize db (replace [32, 32] [32] (strip (lit ''hello world this is a test message''))) =
        lit ''Hello world this is a test message''"
    using process_text_ascii [OF a, of db] unfolding hello_facts(1)
    by (simp add: lit_def ascii_upper_def ascii_lower_def)
  then show ?thesis
    by (simp add: process_text_def Let_def lit_spaces del: replace.simps)
       (simp add: lit_def endswith_def suffix_to_prefix)
qed

lemma hello_processed_length: "length (lit ''Hello world this is a test message.'') = 35"
  by (simp add: lit_def)

lemma hello_run:
  "run db (lit ''hello world this is a test message'') =
     (Completed,
      \<lparr>messages = Some [lit ''Input validated: 34 characters'',
                        lit ''Content processed: 35 characters'',
                        lit ''Output formatted successfully''],
       current_step = Some (lit ''format_output''),
       content = Some (lit ''hello world this is a test message''),
       processed_content = Some (lit ''Hello world this is a test message.''),
       final_result =
         Some ([memo_emoji] @ lit '' Processed Content:'' @ [10] @
               lit ''Hello world this is a test message.'' @ [10, 10, chart_emoji] @
               lit '' Statistics:'' @ [10] @
               lit ''- Original length: 34 characters'' @ [10] @
               lit ''- Processed length: 35 characters'' @ [10] @
               lit ''- Processing steps: 2''),
       error = Some []\<rparr>)"
proof -
  let ?x = "lit ''hello world this is a test message''"
  have v: "strip ?x \<noteq> []" "length ?x \<le> 1000" by (simp_all add: hello_facts)
  have l: "lit ''Input validated: '' @ lit ''34'' @ lit '' characters'' = lit ''Input validated: 34 characters''"
    "lit ''Content processed: '' @ lit ''35'' @ lit '' characters'' = lit ''Content processed: 35 characters''"
    "lit ''- Original length: '' @ lit ''34'' @ lit '' characters'' = lit ''- Original length: 34 characters''"
    "lit ''- Processed length: '' @ lit ''35'' @ lit '' characters'' = lit ''- Processed length: 35 characters''"
    "lit ''- Processing steps: '' @ lit ''2'' = lit ''- Processing steps: 2''"
    by (simp_all add: lit_def)
  show ?thesis
    unfolding run_valid [OF v] hello_facts hello_processed hello_processed_length summary_eq
      str_nat_values
    using l by simp
qed

section \<open>The claims\<close>

text \<open>
  Claim C1, as the claim states it, fails in one figure: the input "hello world this is
  a test message" has 34 characters, not 35, and the summary in the final result
  reports the original length 34; the text "Original length: 35" does not occur in it.
\<close>

theorem hello_original_length_counterexample:
  "length (lit ''hello world this is a test message'') = 34 \<and>
   (\<forall>db. final_result (snd (run db (lit ''hello world this is a test message''))) =
     Some ([memo_emoji] @ lit '' Processed Content:'' @ [10] @
        lit ''Hello world this is a test message.'' @ [10, 10, chart_emoji] @
        lit '' Statistics:'' @ [10] @
        lit ''- Original length: 34 characters'' @ [10] @
        lit ''- Processed length: 35 characters'' @ [10] @
        lit ''- Processing steps: 2'')) \<and>
   \<not> contains (lit ''Original length: 35'')
       ([memo_emoji] @ lit '' Processed Content:'' @ [10] @
        lit ''Hello world this is a test message.'' @ [10, 10, chart_emoji] @
        lit '' Statistics:'' @ [10] @
        lit ''- Original length: 34 characters'' @ [10] @
        lit ''- Processed length: 35 characters'' @ [10] @
        lit ''- Processing steps: 2'')"
proof -
  have "\<not> contains (lit ''Original length: 35'')
       ([memo_emoji] @ lit '' Processed Content:'' @ [10] @
        lit ''Hello world this is a test message.'' @ [10, 10, chart_emoji] @
        lit '' Statistics:'' @ [10] @
        lit ''- Original length: 34 characters'' @ [10] @
        lit ''- Processed length: 35 characters'' @ [10] @
        lit ''- Processing steps: 2'')"
    by (simp add: lit_def memo_emoji_def chart_emoji_def)
  then show ?thesis by (simp add: hello_run hello_facts(2))
qed

text \<open>
  Claim C1, amended. For the input "hello world this is a test message" (34 characters)
  validation passes with no error and the run is Completed; the processed content is
  "Hello world this is a test message.", capitalized, with single spaces and ending
  in a full stop; the final result is the summary that reports the original length 34,
  the processed length 35 and 2 processing steps.
\<close>

theorem hello_run_completed:
  "error (validate_input (initial_state (lit ''hello world this is a test message''))) = Some [] \<and>
   run db (lit ''hello world this is a test message'') =
     (Completed,
      \<lparr>messages = Some [lit ''Input validated: 34 characters'',
                        lit ''Content processed: 35 characters'',
                        lit ''Output formatted successfully''],
       current_step = Some (lit ''format_output''),
       content = Some (lit ''hello world this is a test message''),
       processed_content = Some (lit ''Hello world this is a test message.''),
       final_result =
         Some ([memo_emoji] @ lit '' Processed Content:'' @ [10] @
        lit ''Hello world this is a test message.'' @ [10, 10, chart_emoji] @
        lit '' Statistics:'' @ [10] @
        lit ''- Original length: 34 characters'' @ [10] @
        lit ''- Processed length: 35 characters'' @ [10] @
        lit ''- Processing steps: 2''),
       error = Some []\<rparr>) \<and>
   endswith (lit ''Hello world this is a test message.'') (lit ''.'') \<and>
   \<not> contains (lit ''  '') (lit ''Hello world this is a test message.'') \<and>
   contains (lit ''- Original length: 34 characters'')
     ([memo_emoji] @ lit '' Processed Content:'' @ [10] @
        lit ''Hello world this is a test message.'' @ [10, 10, chart_emoji] @
        lit '' Statistics:'' @ [10] @
        lit ''- Original length: 34 characters'' @ [10] @
        lit ''- Processed length: 35 characters'' @ [10] @
        lit ''- Processing steps: 2'') \<and>
   contains (lit ''- Processed length: 35 characters'')
     ([memo_emoji] @ lit '' Processed Content:'' @ [10] @
        lit ''Hello world this is a test message.'' @ [10, 10, chart_emoji] @
        lit '' Statistics:'' @ [10] @
        lit ''- Original length: 34 characters'' @ [10] @
        lit ''- Processed length: 35 characters'' @ [10] @
        lit ''- Processing steps: 2'')"
proof -
  let ?x = "lit ''hello world this is a test message''"
  have "strip (dict_get (content (initial_state ?x)) []) \<noteq> []"
    "length (dict_get (content (initial_state ?x)) []) \<le> 1000"
    by (simp_all add: initial_state_def dict_get_def hello_facts)
  then have a: "error (validate_input (initial_state ?x)) = Some []"
    by (simp add: validate_input_ok)
  have b: "endswith (lit ''Hello world this is a test message.'') (lit ''.'')"
    by (simp add: endswith_def lit_def suffix_to_prefix)
  have c: "\<not> contains (lit ''  '') (lit ''Hello world this is a test message.'')"
    by (simp add: lit_def)
  have d: "contains (lit ''- Original length: 34 characters'')
     ([memo_emoji] @ lit '' Processed Content:'' @ [10] @
        lit ''Hello world this is a test message.'' @ [10, 10, chart_emoji] @
        lit '' Statistics:'' @ [10] @
        lit ''- Original length: 34 characters'' @ [10] @
        lit ''- Processed length: 35 characters'' @ [10] @
        lit ''- Processing steps: 2'')"
    by (simp add: lit_def memo_emoji_def chart_emoji_def)
  have e: "contains (lit ''- Processed length: 35 characters'')
     ([memo_emoji] @ lit '' Processed Content:'' @ [10] @
        lit ''Hello world this is a test message.'' @ [10, 10, chart_emoji] @
        lit '' Statistics:'' @ [10] @
        lit ''- Original length: 34 characters'' @ [10] @
        lit ''- Processed length: 35 characters'' @ [10] @
        lit ''- Processing steps: 2'')"
    by (simp add: lit_def memo_emoji_def chart_emoji_def)
  from a b c d e hello_run [of db] show ?thesis by blast
qed

text \<open>
  Claim C2, as the claim states it, fails for the inputs of length 1001 that consist of
  whitespace only: the emptiness check comes first, and 1001 spaces get the error of
  the empty input, not the error of the input that is too long.
\<close>

theorem too_long_error_counterexample:
  "length (replicate 1001 (32 :: pychar)) = 1001 \<and>
   error (validate_input (initial_state (replicate 1001 32))) =
     Some (lit ''Input content is empty or invalid'') \<and>
   error (validate_input (initial_state (replicate 1001 32))) \<noteq>
     Some (lit ''Input content is too long (max 1000 characters)'')"
proof -
  have "strip (replicate 1001 (32 :: pychar)) = []"
    by (rule strip_blank) (simp add: isspace_def)
  then have "validate_input (initial_state (replicate 1001 32)) =
     \<lparr>messages = None, current_step = Some (lit ''validate_input''), content = None,
      processed_content = None, final_result = None,
      error = Some (lit ''Input content is empty or invalid'')\<rparr>"
    by (intro validate_input_blank) (simp add: initial_state_def dict_get_def)
  moreover have "lit ''Input content is empty or invalid'' \<noteq>
                 lit ''Input content is too long (max 1000 characters)''"
    by (simp add: lit_def)
  ultimately show ?thesis by simp
qed

text \<open>
  Claim C2, amended. For the empty input the validation node sets the error field to
  "Input content is empty or invalid", and for every input of length 1001 that holds
  at least one character that is not whitespace it sets the error field to "Input
  content is too long (max 1000 characters)". In both cases the router gives the label
  "error", the error-handling node writes the cross mark, " Error: " and that message
  into the final result, which so contains the message, and the run is Completed.
\<close>

theorem validation_error_path:
  "(error (validate_input (initial_state [])) = Some (lit ''Input content is empty or invalid'') \<and>
    should_process (merge (initial_state []) (validate_input (initial_state []))) = lit ''error'' \<and>
    run db [] =
      (Completed,
       \<lparr>messages = Some [lit ''Error handled: '' @ lit ''Input content is empty or invalid''],
        current_step = Some (lit ''handle_error''), content = Some [],
        processed_content = Some [],
        final_result = Some ([cross_emoji] @ lit '' Error: '' @ lit ''Input content is empty or invalid''),
        error = Some (lit ''Input content is empty or invalid'')\<rparr>) \<and>
    contains (lit ''Input content is empty or invalid'')
      ([cross_emoji] @ lit '' Error: '' @ lit ''Input content is empty or invalid'')) \<and>
   (length c = 1001 \<and> (\<exists>ch\<in>set c. \<not> isspace ch) \<longrightarrow>
    error (validate_input (initial_state c)) =
      Some (lit ''Input content is too long (max 1000 characters)'') \<and>
    should_process (merge (initial_state c) (validate_input (initial_state c))) = lit ''error'' \<and>
    run db c =
      (Completed,
       \<lparr>messages = Some [lit ''Error handled: '' @ lit ''Input content is too long (max 1000 characters)''],
        current_step = Some (lit ''handle_error''), content = Some c,
        processed_content = Some [],
        final_result = Some ([cross_emoji] @ lit '' Error: '' @
                             lit ''Input content is too long (max 1000 characters)''),
        error = Some (lit ''Input content is too long (max 1000 characters)'')\<rparr>) \<and>
    contains (lit ''Input content is too long (max 1000 characters)'')
      ([cross_emoji] @ lit '' Error: '' @ lit ''Input content is too long (max 1000 characters)''))"
proof -
  have c1: "contains (lit ''Input content is empty or invalid'')
      ([cross_emoji] @ lit '' Error: '' @ lit ''Input content is empty or invalid'')"
    using contains_append [of "lit ''Input content is empty or invalid''" "[cross_emoji] @ lit '' Error: ''" "[]"]
    by simp
  have c2: "contains (lit ''Input content is too long (max 1000 characters)'')
      ([cross_emoji] @ lit '' Error: '' @ lit ''Input content is too long (max 1000 characters)'')"
    using contains_append [of "lit ''Input content is too long (max 1000 characters)''"
        "[cross_emoji] @ lit '' Error: ''" "[]"]
    by simp
  have v1: "validate_input (initial_state []) =
     \<lparr>messages = None, current_step = Some (lit ''validate_input''), content = None,
      processed_content = None, final_result = None,
      error = Some (lit ''Input content is empty or invalid'')\<rparr>"
    by (rule validate_input_blank) (simp add: initial_state_def dict_get_def)
  have e1: "error (validate_input (initial_state [])) = Some (lit ''Input content is empty or invalid'')"
    by (simp add: v1)
  have s1: "should_process (merge (initial_state []) (validate_input (initial_state []))) = lit ''error''"
    unfolding v1 by (simp add: should_process_def merge_def replace_field_def truthy_def lit_nonempty)
  have r1: "run db [] =
      (Completed,
       \<lparr>messages = Some [lit ''Error handled: '' @ lit ''Input content is empty or invalid''],
        current_step = Some (lit ''handle_error''), content = Some [],
        processed_content = Some [],
        final_result = Some ([cross_emoji] @ lit '' Error: '' @ lit ''Input content is empty or invalid''),
        error = Some (lit ''Input content is empty or invalid'')\<rparr>)"
    by (rule run_blank) simp
  have long: "error (validate_input (initial_state c)) =
      Some (lit ''Input content is too long (max 1000 characters)'') \<and>
    should_process (merge (initial_state c) (validate_input (initial_state c))) = lit ''error'' \<and>
    run db c =
      (Completed,
       \<lparr>messages = Some [lit ''Error handled: '' @ lit ''Input content is too long (max 1000 characters)''],
        current_step = Some (lit ''handle_error''), content = Some c,
        processed_content = Some [],
        final_result = Some ([cross_emoji] @ lit '' Error: '' @
                             lit ''Input content is too long (max 1000 characters)''),
        error = Some (lit ''Input content is too long (max 1000 characters)'')\<rparr>)"
    if len: "length c = 1001" and ns: "\<exists>ch\<in>set c. \<not> isspace ch"
  proof -
    from ns have n: "strip c \<noteq> []" by (simp add: strip_Nil_iff)
    from len have l: "1000 < length c" by simp
    have v2: "validate_input (initial_state c) =
       \<lparr>messages = None, current_step = Some (lit ''validate_input''), content = None,
        processed_content = None, final_result = None,
        error = Some (lit ''Input content is too long (max 1000 characters)'')\<rparr>"
      using n l by (intro validate_input_too_long) (simp_all add: initial_state_def dict_get_def)
    have e2: "error (validate_input (initial_state c)) =
        Some (lit ''Input content is too long (max 1000 characters)'')"
      by (simp add: v2)
    have s2: "should_process (merge (initial_state c) (validate_input (initial_state c))) = lit ''error''"
      unfolding v2 by (simp add: should_process_def merge_def replace_field_def truthy_def lit_nonempty)
    from e2 s2 run_too_long [OF n l] show ?thesis by blast
  qed
  from c1 c2 e1 s1 r1 long show ?thesis by blast
qed

theorem validation_error_path_witness:
  "length (replicate 1001 (97 :: pychar)) = 1001 \<and>
   (\<exists>ch\<in>set (replicate 1001 (97 :: pychar)). \<not> isspace ch) \<and>
   error (validate_input (initial_state (replicate 1001 97))) =
      Some (lit ''Input content is too long (max 1000 characters)'') \<and>
   (\<forall>db. run db (replicate 1001 97) =
      (Completed,
       \<lparr>messages = Some [lit ''Error handled: '' @ lit ''Input content is too long (max 1000 characters)''],
        current_step = Some (lit ''handle_error''), content = Some (replicate 1001 97),
        processed_content = Some [],
        final_result = Some ([cross_emoji] @ lit '' Error: '' @
                             lit ''Input content is too long (max 1000 characters)''),
        error = Some (lit ''Input content is too long (max 1000 characters)'')\<rparr>))"
proof -
  have a: "length (replicate 1001 (97 :: pychar)) = 1001" by simp
  have b: "\<exists>ch\<in>set (replicate 1001 (97 :: pychar)). \<not> isspace ch" by (simp add: isspace_def)
  from validation_error_path [of _ "replicate 1001 97"] a b show ?thesis by blast
qed

text \<open>
  Claim C3. The router of the validation node: when the error field is empty (missing
  or the empty string) it gives the label "process", whose target in the conditional
  edge of the workflow is the processing node; when the error field is a non-empty
  string it gives the label "error", whose target is the error-handling node.
\<close>

theorem should_process_routing:
  "map_of (edges (create_workflow db)) (lit ''validate_input'') =
     Some (Conditional should_process routes) \<and>
   map_of (nodes (create_workflow db)) (lit ''process_content'') = Some (process_content db) \<and>
   map_of (nodes (create_workflow db)) (lit ''handle_error'') = Some handle_error \<and>
   (error s = None \<or> error s = Some [] \<longrightarrow>
      should_process s = lit ''process'' \<and>
      map_of routes (should_process s) = Some (lit ''process_content'')) \<and>
   ((\<exists>e. error s = Some e \<and> e \<noteq> []) \<longrightarrow>
      should_process s = lit ''error'' \<and>
      map_of routes (should_process s) = Some (lit ''handle_error''))"
proof -
  have empty: "should_process s = lit ''process''" if "error s = None \<or> error s = Some []"
    using that by (auto simp add: should_process_def truthy_def)
  have filled: "should_process s = lit ''error''" if "\<exists>e. error s = Some e \<and> e \<noteq> []"
    using that by (auto simp add: should_process_def truthy_def)
  from empty filled show ?thesis
    by (auto simp add: edge_lookup node_lookup route_lookup)
qed

theorem should_process_routing_witness:
  "error (initial_state (lit ''a'')) = Some [] \<and>
   should_process (initial_state (lit ''a'')) = lit ''process'' \<and>
   map_of routes (should_process (initial_state (lit ''a''))) = Some (lit ''process_content'') \<and>
   error ((initial_state (lit ''a''))\<lparr>error := Some (lit ''x'')\<rparr>) = Some (lit ''x'') \<and>
   lit ''x'' \<noteq> [] \<and>
   should_process ((initial_state (lit ''a''))\<lparr>error := Some (lit ''x'')\<rparr>) = lit ''error'' \<and>
   map_of routes (should_process ((initial_state (lit ''a''))\<lparr>error := Some (lit ''x'')\<rparr>)) =
     Some (lit ''handle_error'')"
proof -
  let ?s1 = "initial_state (lit ''a'')"
  let ?s2 = "(initial_state (lit ''a''))\<lparr>error := Some (lit ''x'')\<rparr>"
  have x: "lit ''x'' \<noteq> []" by (simp add: lit_def)
  have e1: "error ?s1 = Some []" by (simp add: initial_state_def)
  have e2: "error ?s2 = Some (lit ''x'')" by simp
  from should_process_routing [of _ ?s1] e1
  have r1: "should_process ?s1 = lit ''process'' \<and>
            map_of routes (should_process ?s1) = Some (lit ''process_content'')"
    by blast
  from should_process_routing [of _ ?s2] e2 x
  have r2: "should_process ?s2 = lit ''error'' \<and>
            map_of routes (should_process ?s2) = Some (lit ''handle_error'')"
    by blast
  from e1 e2 x r1 r2 show ?thesis by blast
qed

text \<open>
  Claim C4, as the claim states it, fails in its first part: the transformation node
  replaces pairs of the space character only. A run of two tabs inside the content,
  which is interior whitespace, stays as it is and does not become a single space.
\<close>

theorem tabs_not_collapsed_counterexample:
  "isspace 9 \<and>
   (\<forall>db. processed_content (process_content db (initial_state [97, 9, 9, 98])) =
      Some [65, 9, 9, 98, 46]) \<and>
   contains [9, 9] [65, 9, 9, 98, 46] \<and>
   (\<forall>db. processed_content (process_content db (initial_state [97, 9, 9, 98])) \<noteq>
      Some (lit ''A b.''))"
proof -
  have a: "\<forall>ch\<in>set [97, 9, 9, 98 :: pychar]. ch < 128" by simp
  have p: "process_text db [97, 9, 9, 98] = [65, 9, 9, 98, 46]" for db
    unfolding process_text_ascii_eval [OF a]
    by (simp add: strip_def lstrip_def rstrip_def isspace_def endswith_def ascii_upper_def
        ascii_lower_def Let_def suffix_to_prefix)
  have "processed_content (process_content db (initial_state [97, 9, 9, 98])) =
          Some [65, 9, 9, 98, 46]" for db
    by (simp add: process_content_def initial_state_def dict_get_def p Let_def)
  moreover have "isspace 9" by (simp add: isspace_def)
  moreover have "contains [9, 9] [65, 9, 9, 98, 46 :: pychar]" by simp
  moreover have "[65, 9, 9, 98, 46] \<noteq> lit ''A b.''" by (simp add: lit_def)
  ultimately show ?thesis by simp
qed

text \<open>
  Claim C4, amended. For every input state and all case tables of the runtime, with
  \<open>c\<close> the content (the empty string when the key is missing) and \<open>p\<close> the processed
  text: the transformation node returns the update that holds exactly one log entry,
  "Content processed: n characters" with n the length of \<open>p\<close>, the step name, \<open>p\<close> as
  processed content and the empty error; merged, the entry is appended to the messages
  and the error field is cleared. \<open>p\<close> ends with a full stop; it is the capitalized
  text, with a full stop appended when there was none, of the trimmed content in which
  pairs of adjacent spaces have been replaced by one space. When the trimmed content
  has no three adjacent spaces, the text after the replacement has no two adjacent
  spaces; a trimmed content without two adjacent spaces passes the replacement
  unchanged, whatever other whitespace it holds. When the content is ASCII, the
  capitalization puts the first character in upper case when it is a lower-case
  letter and every later upper-case letter in lower case, leaves every other
  character as it is, and \<open>p\<close> has no two adjacent spaces when the trimmed content has
  no three.
\<close>

theorem process_content_effect:
  assumes "c = dict_get (content s) []" and "p = process_text db c"
  shows "process_content db s =
           \<lparr>messages = Some [lit ''Content processed: '' @ str_nat (length p) @ lit '' characters''],
            current_step = Some (lit ''process_content''), content = None,
            processed_content = Some p, final_result = None, error = Some []\<rparr> \<and>
         messages (merge s (process_content db s)) =
           Some (dict_get (messages s) [] @
                 [lit ''Content processed: '' @ str_nat (length p) @ lit '' characters'']) \<and>
         error (merge s (process_content db s)) = Some [] \<and>
         endswith p (lit ''.'') \<and>
         (p = capitalize db (replace (lit ''  '') (lit '' '') (strip c)) \<or>
          p = capitalize db (replace (lit ''  '') (lit '' '') (strip c)) @ lit ''.'') \<and>
         (\<not> contains (lit ''   '') (strip c) \<longrightarrow>
            \<not> contains (lit ''  '') (replace (lit ''  '') (lit '' '') (strip c))) \<and>
         (\<not> contains (lit ''  '') (strip c) \<longrightarrow>
            replace (lit ''  '') (lit '' '') (strip c) = strip c) \<and>
         ((\<forall>ch\<in>set c. ch < 128) \<longrightarrow>
            capitalize db (replace (lit ''  '') (lit '' '') (strip c)) =
              (case replace (lit ''  '') (lit '' '') (strip c) of
                 [] \<Rightarrow> []
               | a # rest \<Rightarrow>
                   (if 97 \<le> a \<and> a \<le> 122 then a - 32 else a) #
                   map (\<lambda>b. if 65 \<le> b \<and> b \<le> 90 then b + 32 else b) rest) \<and>
            (\<not> contains (lit ''   '') (strip c) \<longrightarrow> \<not> contains (lit ''  '') p))"
proof -
  have u: "process_content db s =
           \<lparr>messages = Some [lit ''Content processed: '' @ str_nat (length p) @ lit '' characters''],
            current_step = Some (lit ''process_content''), content = None,
            processed_content = Some p, final_result = None, error = Some []\<rparr>"
    using assms by (simp add: process_content_def Let_def)
  have m: "messages (merge s (process_content db s)) =
           Some (dict_get (messages s) [] @
                 [lit ''Content processed: '' @ str_nat (length p) @ lit '' characters''])"
    "error (merge s (process_content db s)) = Some []"
    unfolding u by (simp_all add: merge_def append_field_def replace_field_def)
  have e: "endswith p (lit ''.'')" using assms(2) by (simp add: endswith_process_text)
  have f: "p = capitalize db (replace (lit ''  '') (lit '' '') (strip c)) \<or>
          p = capitalize db (replace (lit ''  '') (lit '' '') (strip c)) @ lit ''.''"
    using assms(2) by (simp add: process_text_def Let_def del: replace.simps)
  have d: "\<not> contains (lit ''  '') (replace (lit ''  '') (lit '' '') (strip c))"
    if "\<not> contains (lit ''   '') (strip c)"
    using that unfolding lit_spaces by (rule replace_pair_no_double)
  have k: "replace (lit ''  '') (lit '' '') (strip c) = strip c" if "\<not> contains (lit ''  '') (strip c)"
    using that unfolding lit_spaces by (rule replace_pair_unchanged)
  have a: "capitalize db (replace (lit ''  '') (lit '' '') (strip c)) =
              (case replace (lit ''  '') (lit '' '') (strip c) of
                 [] \<Rightarrow> []
               | a # rest \<Rightarrow>
                   (if 97 \<le> a \<and> a \<le> 122 then a - 32 else a) #
                   map (\<lambda>b. if 65 \<le> b \<and> b \<le> 90 then b + 32 else b) rest)"
    if "\<forall>ch\<in>set c. ch < 128"
  proof -
    have l: "ascii_lower = (\<lambda>b. if 65 \<le> b \<and> b \<le> 90 then b + 32 else b)"
      by (rule ext) (simp add: ascii_lower_def)
    show ?thesis
      unfolding lit_spaces process_text_ascii [OF that]
      by (simp add: ascii_upper_def l split: list.split del: replace.simps)
  qed
  have n: "\<not> contains (lit ''  '') p"
    if "\<forall>ch\<in>set c. ch < 128" and "\<not> contains (lit ''   '') (strip c)"
    using that assms(2) by (simp add: process_text_no_double)
  from u m e f d k a n show ?thesis by blast
qed

theorem process_content_effect_witness:
  "dict_get (content (initial_state (lit ''  hello  World!  ''))) [] = lit ''  hello  World!  '' \<and>
   list_all (\<lambda>ch. ch < 128) (lit ''  hello  World!  '') \<and>
   strip (lit ''  hello  World!  '') = lit ''hello  World!'' \<and>
   \<not> contains (lit ''   '') (lit ''hello  World!'') \<and>
   replace (lit ''  '') (lit '' '') (lit ''hello  World!'') = lit ''hello World!'' \<and>
   (\<forall>db. process_text db (lit ''  hello  World!  '') = lit ''Hello world!.'' \<and>
     capitalize db (lit ''hello World!'') = lit ''Hello world!'' \<and>
     processed_content (process_content db (initial_state (lit ''  hello  World!  ''))) =
       Some (lit ''Hello world!.'') \<and>
     messages (merge (initial_state (lit ''  hello  World!  ''))
                     (process_content db (initial_state (lit ''  hello  World!  '')))) =
       Some ([] @ [lit ''Content processed: '' @ str_nat 13 @ lit '' characters'']) \<and>
     error (merge (initial_state (lit ''  hello  World!  ''))
                  (process_content db (initial_state (lit ''  hello  World!  '')))) = Some []) \<and>
   endswith (lit ''Hello world!.'') (lit ''.'') \<and>
   \<not> contains (lit ''  '') (lit ''Hello world!.'')"
proof -
  let ?x = "lit ''  hello  World!  ''"
  have c: "lit ''  hello  World!  '' = dict_get (content (initial_state ?x)) []"
    by (simp add: initial_state_def dict_get_def)
  have s: "strip ?x = lit ''hello  World!''"
    by (simp add: lit_def strip_def lstrip_def rstrip_def isspace_def)
  have asc: "\<forall>ch\<in>set ?x. ch < 128" by (simp add: lit_def)
  have r: "replace (lit ''  '') (lit '' '') (lit ''hello  World!'') = lit ''hello World!''"
    by (simp add: lit_def)
  have p: "lit ''Hello world!.'' = process_text db ?x" for db
    unfolding process_text_ascii_eval [OF asc] s
    by (simp add: lit_def endswith_def ascii_upper_def ascii_lower_def Let_def suffix_to_prefix)
  have t: "\<not> contains (lit ''   '') (lit ''hello  World!'')" by (simp add: lit_def)
  have l: "length (lit ''Hello world!.'') = 13" by (simp add: lit_def)
  have g: "dict_get (messages (initial_state ?x)) [] = []"
    by (simp add: initial_state_def dict_get_def)
  have v: "(case lit ''hello World!'' of [] \<Rightarrow> []
            | a # rest \<Rightarrow> (if 97 \<le> a \<and> a \<le> 122 then a - 32 else a) #
                map (\<lambda>b. if 65 \<le> b \<and> b \<le> 90 then b + 32 else b) rest) = lit ''Hello world!''"
    by (simp add: lit_def)
  have per_db: "process_text db ?x = lit ''Hello world!.'' \<and>
     capitalize db (lit ''hello World!'') = lit ''Hello world!'' \<and>
     processed_content (process_content db (initial_state ?x)) = Some (lit ''Hello world!.'') \<and>
     messages (merge (initial_state ?x) (process_content db (initial_state ?x))) =
       Some ([] @ [lit ''Content processed: '' @ str_nat 13 @ lit '' characters'']) \<and>
     error (merge (initial_state ?x) (process_content db (initial_state ?x))) = Some [] \<and>
     endswith (lit ''Hello world!.'') (lit ''.'') \<and>
     \<not> contains (lit ''  '') (lit ''Hello world!.'')" for db
  proof -
    note th = process_content_effect [OF c p, of db, unfolded s l g r v]
    from th have "processed_content (process_content db (initial_state ?x)) = Some (lit ''Hello world!.'')"
      by simp
    moreover from th asc t have "\<not> contains (lit ''  '') (lit ''Hello world!.'')" by blast
    moreover from th asc have "capitalize db (lit ''hello World!'') = lit ''Hello world!''" by blast
    moreover from th have "messages (merge (initial_state ?x) (process_content db (initial_state ?x))) =
       Some ([] @ [lit ''Content processed: '' @ str_nat 13 @ lit '' characters''])" by blast
    moreover from th have "error (merge (initial_state ?x) (process_content db (initial_state ?x))) = Some []"
      by blast
    moreover from th have "endswith (lit ''Hello world!.'') (lit ''.'')" by blast
    ultimately show ?thesis using p [of db, symmetric] by blast
  qed
  have la: "list_all (\<lambda>ch. ch < 128) ?x" using asc by (simp add: list_all_iff)
  from per_db c [symmetric] s t r la show ?thesis by blast
qed

text \<open>
  Claim C5. A field that a partial update does not hold keeps its prior value in the
  merged state, and the update is applied as a whole: in the one merged state every
  field the update holds has the update's value (appended to the prior list for
  \<open>messages\<close>). In particular, on the two failure branches of the validation node,
  whose update holds only \<open>current_step\<close> and \<open>error\<close>, the fields \<open>content\<close>,
  \<open>messages\<close>, \<open>processed_content\<close> and \<open>final_result\<close> are unchanged.
\<close>

theorem merge_frame:
  "(messages u = None \<longrightarrow> messages (merge s u) = messages s) \<and>
   (current_step u = None \<longrightarrow> current_step (merge s u) = current_step s) \<and>
   (content u = None \<longrightarrow> content (merge s u) = content s) \<and>
   (processed_content u = None \<longrightarrow> processed_content (merge s u) = processed_content s) \<and>
   (final_result u = None \<longrightarrow> final_result (merge s u) = final_result s) \<and>
   (error u = None \<longrightarrow> error (merge s u) = error s) \<and>
   (\<forall>ms. messages u = Some ms \<longrightarrow> messages (merge s u) = Some (dict_get (messages s) [] @ ms)) \<and>
   (\<forall>v. current_step u = Some v \<longrightarrow> current_step (merge s u) = Some v) \<and>
   (\<forall>v. content u = Some v \<longrightarrow> content (merge s u) = Some v) \<and>
   (\<forall>v. processed_content u = Some v \<longrightarrow> processed_content (merge s u) = Some v) \<and>
   (\<forall>v. final_result u = Some v \<longrightarrow> final_result (merge s u) = Some v) \<and>
   (\<forall>v. error u = Some v \<longrightarrow> error (merge s u) = Some v) \<and>
   (dict_get (content s) [] = [] \<or> strip (dict_get (content s) []) = [] \<or>
    1000 < length (dict_get (content s) []) \<longrightarrow>
      content (merge s (validate_input s)) = content s \<and>
      messages (merge s (validate_input s)) = messages s \<and>
      processed_content (merge s (validate_input s)) = processed_content s \<and>
      final_result (merge s (validate_input s)) = final_result s)"
proof -
  have frame: "(messages u = None \<longrightarrow> messages (merge s u) = messages s) \<and>
   (current_step u = None \<longrightarrow> current_step (merge s u) = current_step s) \<and>
   (content u = None \<longrightarrow> content (merge s u) = content s) \<and>
   (processed_content u = None \<longrightarrow> processed_content (merge s u) = processed_content s) \<and>
   (final_result u = None \<longrightarrow> final_result (merge s u) = final_result s) \<and>
   (error u = None \<longrightarrow> error (merge s u) = error s)"
    by (simp add: merge_def replace_field_def append_field_def)
  have whole: "(\<forall>ms. messages u = Some ms \<longrightarrow> messages (merge s u) = Some (dict_get (messages s) [] @ ms)) \<and>
   (\<forall>v. current_step u = Some v \<longrightarrow> current_step (merge s u) = Some v) \<and>
   (\<forall>v. content u = Some v \<longrightarrow> content (merge s u) = Some v) \<and>
   (\<forall>v. processed_content u = Some v \<longrightarrow> processed_content (merge s u) = Some v) \<and>
   (\<forall>v. final_result u = Some v \<longrightarrow> final_result (merge s u) = Some v) \<and>
   (\<forall>v. error u = Some v \<longrightarrow> error (merge s u) = Some v)"
    by (simp add: merge_def replace_field_def append_field_def)
  have failing: "content (merge s (validate_input s)) = content s \<and>
      messages (merge s (validate_input s)) = messages s \<and>
      processed_content (merge s (validate_input s)) = processed_content s \<and>
      final_result (merge s (validate_input s)) = final_result s"
    if "dict_get (content s) [] = [] \<or> strip (dict_get (content s) []) = [] \<or>
        1000 < length (dict_get (content s) [])"
  proof (cases "dict_get (content s) [] = [] \<or> strip (dict_get (content s) []) = []")
    case True
    then show ?thesis
      by (simp add: validate_input_blank merge_def replace_field_def append_field_def)
  next
    case False
    with that have "strip (dict_get (content s) []) \<noteq> []" "1000 < length (dict_get (content s) [])"
      by simp_all
    then show ?thesis
      by (simp add: validate_input_too_long merge_def replace_field_def append_field_def)
  qed
  from frame whole failing show ?thesis by blast
qed

theorem merge_frame_witness:
  "validate_input
     \<lparr>messages = Some [lit ''m''], current_step = Some (lit ''start''), content = Some (lit ''  ''),
      processed_content = Some (lit ''p''), final_result = Some (lit ''f''), error = Some []\<rparr> =
     \<lparr>messages = None, current_step = Some (lit ''validate_input''), content = None,
      processed_content = None, final_result = None,
      error = Some (lit ''Input content is empty or invalid'')\<rparr> \<and>
   merge
     \<lparr>messages = Some [lit ''m''], current_step = Some (lit ''start''), content = Some (lit ''  ''),
      processed_content = Some (lit ''p''), final_result = Some (lit ''f''), error = Some []\<rparr>
     (validate_input
        \<lparr>messages = Some [lit ''m''], current_step = Some (lit ''start''), content = Some (lit ''  ''),
         processed_content = Some (lit ''p''), final_result = Some (lit ''f''), error = Some []\<rparr>) =
     \<lparr>messages = Some [lit ''m''], current_step = Some (lit ''validate_input''),
      content = Some (lit ''  ''), processed_content = Some (lit ''p''),
      final_result = Some (lit ''f''),
      error = Some (lit ''Input content is empty or invalid'')\<rparr> \<and>
   messages
     (merge
        \<lparr>messages = Some [lit ''m''], current_step = Some (lit ''start''), content = Some (lit ''  ''),
         processed_content = Some (lit ''p''), final_result = Some (lit ''f''), error = Some []\<rparr>
        \<lparr>messages = Some [lit ''n''], current_step = None, content = Some (lit ''c''),
         processed_content = None, final_result = None, error = None\<rparr>) =
     Some [lit ''m'', lit ''n''] \<and>
   lit ''  '' \<noteq> [] \<and> lit ''p'' \<noteq> [] \<and> lit ''f'' \<noteq> [] \<and> lit ''c'' \<noteq> lit ''  ''"
proof -
  let ?s = "\<lparr>messages = Some [lit ''m''], current_step = Some (lit ''start''),
             content = Some (lit ''  ''), processed_content = Some (lit ''p''),
             final_result = Some (lit ''f''), error = Some []\<rparr>"
  let ?u = "\<lparr>messages = Some [lit ''n''], current_step = None, content = Some (lit ''c''),
             processed_content = None, final_result = None, error = None\<rparr>"
  have b: "strip (lit ''  '') = []" by (rule strip_blank) (simp add: lit_def isspace_def)
  have v: "validate_input ?s =
     \<lparr>messages = None, current_step = Some (lit ''validate_input''), content = None,
      processed_content = None, final_result = None,
      error = Some (lit ''Input content is empty or invalid'')\<rparr>"
    by (rule validate_input_blank) (simp add: dict_get_def b)
  have blank: "dict_get (content ?s) [] = [] \<or> strip (dict_get (content ?s) []) = [] \<or>
               1000 < length (dict_get (content ?s) [])"
    by (simp add: dict_get_def b)
  from merge_frame [of "validate_input ?s" ?s] blank
  have kept: "content (merge ?s (validate_input ?s)) = content ?s \<and>
      messages (merge ?s (validate_input ?s)) = messages ?s \<and>
      processed_content (merge ?s (validate_input ?s)) = processed_content ?s \<and>
      final_result (merge ?s (validate_input ?s)) = final_result ?s"
    by blast
  from merge_frame [of "validate_input ?s" ?s]
  have written: "current_step (merge ?s (validate_input ?s)) = Some (lit ''validate_input'') \<and>
      error (merge ?s (validate_input ?s)) = Some (lit ''Input content is empty or invalid'')"
    unfolding v by simp
  have whole: "merge ?s (validate_input ?s) =
     \<lparr>messages = Some [lit ''m''], current_step = Some (lit ''validate_input''),
      content = Some (lit ''  ''), processed_content = Some (lit ''p''),
      final_result = Some (lit ''f''),
      error = Some (lit ''Input content is empty or invalid'')\<rparr>"
    using kept written by (cases "merge ?s (validate_input ?s)") simp
  from merge_frame [of ?u ?s]
  have app: "messages (merge ?s ?u) = Some [lit ''m'', lit ''n'']"
    by (simp add: dict_get_def)
  have ne: "lit ''  '' \<noteq> []" "lit ''p'' \<noteq> []" "lit ''f'' \<noteq> []" "lit ''c'' \<noteq> lit ''  ''"
    by (simp_all add: lit_def)
  from v whole app ne show ?thesis by blast
qed



text \<open>
  Claim C7. Merging is associative on the append field: merging an update with the
  messages \<open>m1\<close> and then one with the messages \<open>m2\<close> gives the same \<open>messages\<close> as
  merging one update with the messages \<open>m1 @ m2\<close>, namely the prior messages followed
  by \<open>m1\<close> and \<open>m2\<close> in this order, with nothing removed.
\<close>

theorem merge_append_associative:
  assumes "messages u1 = Some m1" and "messages u2 = Some m2" and "messages u = Some (m1 @ m2)"
  shows "messages (merge (merge s u1) u2) = messages (merge s u) \<and>
         messages (merge (merge s u1) u2) = Some (dict_get (messages s) [] @ m1 @ m2)"
  using assms by (simp add: merge_def append_field_def dict_get_def)

theorem merge_append_associative_witness:
  "messages (merge (merge ((initial_state [])\<lparr>messages := Some [lit ''a'']\<rparr>)
                          ((initial_state [])\<lparr>messages := Some [lit ''a'', lit ''b'']\<rparr>))
                   ((initial_state [])\<lparr>messages := Some [lit ''a'']\<rparr>)) =
   messages (merge ((initial_state [])\<lparr>messages := Some [lit ''a'']\<rparr>)
                   ((initial_state [])\<lparr>messages := Some [lit ''a'', lit ''b'', lit ''a'']\<rparr>)) \<and>
   messages (merge (merge ((initial_state [])\<lparr>messages := Some [lit ''a'']\<rparr>)
                          ((initial_state [])\<lparr>messages := Some [lit ''a'', lit ''b'']\<rparr>))
                   ((initial_state [])\<lparr>messages := Some [lit ''a'']\<rparr>)) =
   Some [lit ''a'', lit ''a'', lit ''b'', lit ''a'']"
  using merge_append_associative
    [of "(initial_state [])\<lparr>messages := Some [lit ''a'', lit ''b'']\<rparr>" "[lit ''a'', lit ''b'']"
        "(initial_state [])\<lparr>messages := Some [lit ''a'']\<rparr>" "[lit ''a'']"
        "(initial_state [])\<lparr>messages := Some [lit ''a'', lit ''b'', lit ''a'']\<rparr>"
        "(initial_state [])\<lparr>messages := Some [lit ''a'']\<rparr>"]
  by (auto simp add: dict_get_def)

text \<open>
  Claim C8, as the claim states it, fails: on a state whose error field is the empty
  string the error-handling node does not fall back to the generic message. The
  default of \<^verbatim>\<open>state.get('error', ...)\<close> is used only when the key is missing; the empty
  string is a value of the key, and the final result is the bare prefix.
\<close>

theorem handle_error_empty_string_counterexample:
  "error (initial_state []) = Some [] \<and>
   handle_error (initial_state []) =
     \<lparr>messages = Some [lit ''Error handled: ''], current_step = Some (lit ''handle_error''),
      content = None, processed_content = None,
      final_result = Some ([cross_emoji] @ lit '' Error: ''), error = Some []\<rparr> \<and>
   final_result (handle_error (initial_state [])) \<noteq>
     Some ([cross_emoji] @ lit '' Error: Unknown error occurred'') \<and>
   messages (handle_error (initial_state [])) \<noteq> Some [lit ''Error handled: Unknown error occurred'']"
  by (simp add: handle_error_def initial_state_def dict_get_def lit_def Let_def)

text \<open>
  Claim C8, amended. When the error field is missing from the state, the
  error-handling node falls back to the generic message "Unknown error occurred": the
  final result is the cross mark followed by " Error: Unknown error occurred", and
  the log entry "Error handled: Unknown error occurred" is appended to the messages.
  A non-empty error value is used as it is.
\<close>

theorem handle_error_fallback:
  "(error s = None \<longrightarrow>
      handle_error s =
        \<lparr>messages = Some [lit ''Error handled: '' @ lit ''Unknown error occurred''],
         current_step = Some (lit ''handle_error''), content = None, processed_content = None,
         final_result = Some ([cross_emoji] @ lit '' Error: '' @ lit ''Unknown error occurred''),
         error = Some (lit ''Unknown error occurred'')\<rparr> \<and>
      messages (merge s (handle_error s)) =
        Some (dict_get (messages s) [] @ [lit ''Error handled: '' @ lit ''Unknown error occurred'']) \<and>
      final_result (merge s (handle_error s)) =
        Some ([cross_emoji] @ lit '' Error: '' @ lit ''Unknown error occurred'')) \<and>
   (\<forall>e. error s = Some e \<and> e \<noteq> [] \<longrightarrow>
      handle_error s =
        \<lparr>messages = Some [lit ''Error handled: '' @ e],
         current_step = Some (lit ''handle_error''), content = None, processed_content = None,
         final_result = Some ([cross_emoji] @ lit '' Error: '' @ e), error = Some e\<rparr> \<and>
      messages (merge s (handle_error s)) = Some (dict_get (messages s) [] @ [lit ''Error handled: '' @ e]) \<and>
      final_result (merge s (handle_error s)) = Some ([cross_emoji] @ lit '' Error: '' @ e))"
proof -
  have missing: "dict_get (error s) (lit ''Unknown error occurred'') = lit ''Unknown error occurred''"
    if "error s = None"
    using that by (simp add: dict_get_def)
  have present: "dict_get (error s) (lit ''Unknown error occurred'') = e" if "error s = Some e" for e
    using that by (simp add: dict_get_def)
  have upd: "handle_error s =
        \<lparr>messages = Some [lit ''Error handled: '' @ dict_get (error s) (lit ''Unknown error occurred'')],
         current_step = Some (lit ''handle_error''), content = None, processed_content = None,
         final_result = Some ([cross_emoji] @ lit '' Error: '' @
                              dict_get (error s) (lit ''Unknown error occurred'')),
         error = Some (dict_get (error s) (lit ''Unknown error occurred''))\<rparr>"
    by (simp add: handle_error_def Let_def)
  show ?thesis
    unfolding upd using missing present
    by (auto simp add: merge_def append_field_def replace_field_def)
qed

theorem handle_error_fallback_witness:
  "error ((initial_state [])\<lparr>error := None\<rparr>) = None \<and>
   final_result (merge ((initial_state [])\<lparr>error := None\<rparr>)
                       (handle_error ((initial_state [])\<lparr>error := None\<rparr>))) =
     Some ([cross_emoji] @ lit '' Error: '' @ lit ''Unknown error occurred'') \<and>
   messages (merge ((initial_state [])\<lparr>error := None\<rparr>)
                   (handle_error ((initial_state [])\<lparr>error := None\<rparr>))) =
     Some ([] @ [lit ''Error handled: '' @ lit ''Unknown error occurred'']) \<and>
   error ((initial_state [])\<lparr>error := Some (lit ''x'')\<rparr>) = Some (lit ''x'') \<and>
   lit ''x'' \<noteq> [] \<and>
   final_result (merge ((initial_state [])\<lparr>error := Some (lit ''x'')\<rparr>)
                       (handle_error ((initial_state [])\<lparr>error := Some (lit ''x'')\<rparr>))) =
     Some ([cross_emoji] @ lit '' Error: '' @ lit ''x'')"
proof -
  let ?s = "(initial_state [])\<lparr>error := None\<rparr>"
  let ?t = "(initial_state [])\<lparr>error := Some (lit ''x'')\<rparr>"
  have n: "error ?s = None" by simp
  have m: "dict_get (messages ?s) [] = []" by (simp add: initial_state_def dict_get_def)
  have x: "error ?t = Some (lit ''x'')" "lit ''x'' \<noteq> []" by (simp_all add: lit_def)
  from handle_error_fallback [of ?s] n
  have a: "messages (merge ?s (handle_error ?s)) =
             Some (dict_get (messages ?s) [] @ [lit ''Error handled: '' @ lit ''Unknown error occurred'']) \<and>
           final_result (merge ?s (handle_error ?s)) =
             Some ([cross_emoji] @ lit '' Error: '' @ lit ''Unknown error occurred'')"
    by blast
  from handle_error_fallback [of ?t] x
  have c: "final_result (merge ?t (handle_error ?t)) = Some ([cross_emoji] @ lit '' Error: '' @ lit ''x'')"
    by blast
  from n x a [unfolded m] c show ?thesis by blast
qed

text \<open>
  Claim C9. The emptiness check comes before the length check: when the content is not
  empty and consists of whitespace only, whatever its length, the validation node
  returns the update with the error "Input content is empty or invalid" and nothing
  but the step name beside it, and not the error of an input that is too long.
\<close>

theorem validate_input_whitespace_only:
  assumes "content s = Some c" and "c \<noteq> []" and "\<forall>ch\<in>set c. isspace ch"
  shows "validate_input s =
           \<lparr>messages = None, current_step = Some (lit ''validate_input''), content = None,
            processed_content = None, final_result = None,
            error = Some (lit ''Input content is empty or invalid'')\<rparr> \<and>
         error (validate_input s) \<noteq> Some (lit ''Input content is too long (max 1000 characters)'')"
proof -
  from assms(3) have "strip c = []" by (rule strip_blank)
  with assms(1) have "dict_get (content s) [] = [] \<or> strip (dict_get (content s) []) = []"
    by (simp add: dict_get_def)
  then have v: "validate_input s =
           \<lparr>messages = None, current_step = Some (lit ''validate_input''), content = None,
            processed_content = None, final_result = None,
            error = Some (lit ''Input content is empty or invalid'')\<rparr>"
    by (rule validate_input_blank)
  have "lit ''Input content is empty or invalid'' \<noteq> lit ''Input content is too long (max 1000 characters)''"
    by (simp add: lit_def)
  with v show ?thesis by simp
qed

theorem validate_input_whitespace_only_witness:
  "content (initial_state (replicate 1001 32)) = Some (replicate 1001 32) \<and>
   replicate 1001 (32 :: pychar) \<noteq> [] \<and>
   set (replicate 1001 (32 :: pychar)) = {32} \<and> isspace 32 \<and>
   1000 < length (replicate 1001 (32 :: pychar)) \<and>
   validate_input (initial_state (replicate 1001 32)) =
     \<lparr>messages = None, current_step = Some (lit ''validate_input''), content = None,
      processed_content = None, final_result = None,
      error = Some (lit ''Input content is empty or invalid'')\<rparr>"
  using validate_input_whitespace_only [of "initial_state (replicate 1001 32)" "replicate 1001 32"]
  by (simp add: initial_state_def isspace_def)

text \<open>
  Claim C10. On the success path (the content is not blank and has at most 1000
  characters) the run is Completed, the content field of the final state is the
  trimmed input, and the final result is the summary of the processed content of the
  final state in which the "Original length" figure is the length of the trimmed
  input. When the input starts or ends with whitespace, that length is smaller than
  the length of the raw input and its decimal text is another one.
\<close>

theorem original_length_is_trimmed_length:
  assumes "strip c \<noteq> []" and "length c \<le> 1000"
  shows "fst (run db c) = Completed \<and>
         content (snd (run db c)) = Some (strip c) \<and>
         (\<exists>p. processed_content (snd (run db c)) = Some p \<and>
              final_result (snd (run db c)) =
                Some ([memo_emoji] @ lit '' Processed Content:'' @ [10] @ p @
                      [10, 10, chart_emoji] @ lit '' Statistics:'' @ [10] @
                      lit ''- Original length: '' @ str_nat (length (strip c)) @
                      lit '' characters'' @ [10] @
                      lit ''- Processed length: '' @ str_nat (length p) @
                      lit '' characters'' @ [10] @
                      lit ''- Processing steps: '' @ str_nat 2)) \<and>
         (isspace (hd c) \<or> isspace (last c) \<longrightarrow>
            length (strip c) < length c \<and> str_nat (length (strip c)) \<noteq> str_nat (length c))"
proof -
  from assms(1) have ne: "c \<noteq> []" by (auto simp add: strip_Nil)
  have sh: "length (strip c) < length c \<and> str_nat (length (strip c)) \<noteq> str_nat (length c)"
    if "isspace (hd c) \<or> isspace (last c)"
  proof -
    from ne that have "length (strip c) < length c" by (rule strip_shorter)
    moreover from this have "str_nat (length (strip c)) \<noteq> str_nat (length c)"
      using str_nat_inj [of "length (strip c)" "length c"] by auto
    ultimately show ?thesis by simp
  qed
  have r: "fst (run db c) = Completed" "content (snd (run db c)) = Some (strip c)"
    "processed_content (snd (run db c)) = Some (process_text db (strip c))"
    "final_result (snd (run db c)) =
       Some (summary (process_text db (strip c)) (length (strip c))
               (length (process_text db (strip c))) 2)"
    by (simp_all add: run_valid [OF assms])
  from r(3,4) have "\<exists>p. processed_content (snd (run db c)) = Some p \<and>
              final_result (snd (run db c)) =
                Some ([memo_emoji] @ lit '' Processed Content:'' @ [10] @ p @
                      [10, 10, chart_emoji] @ lit '' Statistics:'' @ [10] @
                      lit ''- Original length: '' @ str_nat (length (strip c)) @
                      lit '' characters'' @ [10] @
                      lit ''- Processed length: '' @ str_nat (length p) @
                      lit '' characters'' @ [10] @
                      lit ''- Processing steps: '' @ str_nat 2)"
    unfolding summary_eq by blast
  with r(1,2) sh show ?thesis by blast
qed

theorem original_length_is_trimmed_length_witness:
  "strip (lit ''  hi '') = lit ''hi'' \<and> length (lit ''  hi '') = 5 \<and> length (lit ''hi'') = 2 \<and>
   isspace (hd (lit ''  hi '')) \<and>
   (\<forall>db. content (snd (run db (lit ''  hi ''))) = Some (lit ''hi'') \<and>
         processed_content (snd (run db (lit ''  hi ''))) = Some (lit ''Hi.'') \<and>
         final_result (snd (run db (lit ''  hi ''))) =
           Some ([memo_emoji] @ lit '' Processed Content:'' @ [10] @ lit ''Hi.'' @
                 [10, 10, chart_emoji] @ lit '' Statistics:'' @ [10] @
                 lit ''- Original length: '' @ str_nat 2 @ lit '' characters'' @ [10] @
                 lit ''- Processed length: '' @ str_nat 3 @ lit '' characters'' @ [10] @
                 lit ''- Processing steps: '' @ str_nat 2)) \<and>
   str_nat 2 = lit ''2'' \<and> str_nat 3 = lit ''3'' \<and> str_nat 2 \<noteq> str_nat 5"
proof -
  let ?x = "lit ''  hi ''"
  have s: "strip ?x = lit ''hi''"
    by (simp add: lit_def strip_def lstrip_def rstrip_def isspace_def)
  have l: "length ?x = 5" "length (lit ''hi'') = 2" by (simp_all add: lit_def)
  have h: "isspace (hd ?x)" by (simp add: lit_def isspace_def)
  have asc: "\<forall>ch\<in>set (lit ''hi''). ch < 128" by (simp add: lit_def)
  have p: "process_text db (lit ''hi'') = lit ''Hi.''" for db
    unfolding process_text_ascii_eval [OF asc]
    by (simp add: lit_def strip_def lstrip_def rstrip_def isspace_def endswith_def
        ascii_upper_def ascii_lower_def Let_def suffix_to_prefix)
  have p3: "length (lit ''Hi.'') = 3" by (simp add: lit_def)
  have n: "str_nat 2 = lit ''2''" "str_nat 3 = lit ''3''"
    by (simp_all add: str_nat.simps [of 2] str_nat.simps [of 3] lit_def)
  have a: "strip ?x \<noteq> []" "length ?x \<le> 1000" by (simp_all add: s l) (simp add: lit_def)
  have pc: "processed_content (snd (run db ?x)) = Some (lit ''Hi.'')" for db
    by (simp add: run_valid [OF a] s p)
  have per_db: "content (snd (run db ?x)) = Some (lit ''hi'') \<and>
         processed_content (snd (run db ?x)) = Some (lit ''Hi.'') \<and>
         final_result (snd (run db ?x)) =
           Some ([memo_emoji] @ lit '' Processed Content:'' @ [10] @ lit ''Hi.'' @
                 [10, 10, chart_emoji] @ lit '' Statistics:'' @ [10] @
                 lit ''- Original length: '' @ str_nat 2 @ lit '' characters'' @ [10] @
                 lit ''- Processed length: '' @ str_nat 3 @ lit '' characters'' @ [10] @
                 lit ''- Processing steps: '' @ str_nat 2)" for db
  proof -
    from original_length_is_trimmed_length [OF a, of db]
    obtain q where c: "content (snd (run db ?x)) = Some (strip ?x)"
      and q: "processed_content (snd (run db ?x)) = Some q"
      and f: "final_result (snd (run db ?x)) =
                Some ([memo_emoji] @ lit '' Processed Content:'' @ [10] @ q @
                      [10, 10, chart_emoji] @ lit '' Statistics:'' @ [10] @
                      lit ''- Original length: '' @ str_nat (length (strip ?x)) @
                      lit '' characters'' @ [10] @
                      lit ''- Processed length: '' @ str_nat (length q) @
                      lit '' characters'' @ [10] @
                      lit ''- Processing steps: '' @ str_nat 2)"
      by blast
    from q pc [of db] have "q = lit ''Hi.''" by simp
    with c f pc [of db] show ?thesis unfolding s l by (simp add: p3)
  qed
  from original_length_is_trimmed_length [OF a] h
  have d: "str_nat (length (strip ?x)) \<noteq> str_nat (length ?x)" by blast
  from per_db s l h n d [unfolded s l] show ?thesis by blast
qed

end
